theory Spec2Isabelle
  imports Main "HOL-Library.Sublist" "HOL-Library.Word"
begin

section \<open>Constants: roles, job statuses, the transition table\<close>

text \<open>
  \<^verbatim>\<open>src/config/constants.js\<close>. \<^verbatim>\<open>ROLES\<close> and \<^verbatim>\<open>JOB_STATUS\<close> are closed
  enumerations of strings: the job schema restricts \<^verbatim>\<open>status\<close> to
  \<^verbatim>\<open>Object.values(JOB_STATUS)\<close> and the status route validates the requested status
  against the same list, so a status is a value of a datatype and its string is
  recovered by \<open>status_name\<close> where the code interpolates it into a message.
\<close>

datatype role = ADMIN | OFFICE_MANAGER | TECHNICIAN

datatype job_status =
  TENTATIVE | CONFIRMED | ASSIGNED | DISPATCHED | IN_PROGRESS | COMPLETED | BILLED

fun role_name :: "role \<Rightarrow> string" where
  "role_name ADMIN = ''ADMIN''"
| "role_name OFFICE_MANAGER = ''OFFICE_MANAGER''"
| "role_name TECHNICIAN = ''TECHNICIAN''"

fun status_name :: "job_status \<Rightarrow> string" where
  "status_name TENTATIVE = ''TENTATIVE''"
| "status_name CONFIRMED = ''CONFIRMED''"
| "status_name ASSIGNED = ''ASSIGNED''"
| "status_name DISPATCHED = ''DISPATCHED''"
| "status_name IN_PROGRESS = ''IN_PROGRESS''"
| "status_name COMPLETED = ''COMPLETED''"
| "status_name BILLED = ''BILLED''"

text \<open>
  \<^verbatim>\<open>STATUS_TRANSITIONS\<close>: an object keyed by the current status whose values are
  objects keyed by the next status, holding the array of allowed roles. Both levels are
  association lists in insertion order, the order \<^verbatim>\<open>Object.keys\<close> reports.
\<close>

definition STATUS_TRANSITIONS :: "(job_status \<times> (job_status \<times> role list) list) list" where
  "STATUS_TRANSITIONS =
     [(TENTATIVE, [(CONFIRMED, [ADMIN])]),
      (CONFIRMED, [(ASSIGNED, [ADMIN])]),
      (ASSIGNED, [(DISPATCHED, [OFFICE_MANAGER])]),
      (DISPATCHED, [(IN_PROGRESS, [TECHNICIAN])]),
      (IN_PROGRESS, [(COMPLETED, [TECHNICIAN])]),
      (COMPLETED, [(BILLED, [OFFICE_MANAGER])]),
      (BILLED, [])]"

section \<open>The transition policy\<close>

text \<open>\<^verbatim>\<open>Array.prototype.join\<close> with a separator.\<close>

fun join :: "string \<Rightarrow> string list \<Rightarrow> string" where
  "join sep [] = []"
| "join sep [x] = x"
| "join sep (x # y # ys) = x @ sep @ join sep (y # ys)"

text \<open>
  \<^verbatim>\<open>validateTransition(currentStatus, newStatus, role)\<close> of
  \<^verbatim>\<open>src/services/JobService.js\<close>: \<open>None\<close> is the \<^verbatim>\<open>null\<close> it returns when the
  move is legal, \<open>Some msg\<close> the error string.
\<close>

definition validateTransition :: "job_status \<Rightarrow> job_status \<Rightarrow> role \<Rightarrow> string option" where
  "validateTransition currentStatus newStatus role =
     (if currentStatus = newStatus then Some ''Job is already in this status''
      else
        let allowed = map_of STATUS_TRANSITIONS currentStatus in
        if allowed = None \<or> map_of (the allowed) newStatus = None then
          let valid = (case allowed of Some a \<Rightarrow> map fst a | None \<Rightarrow> []) in
          Some (''Invalid transition from '' @ status_name currentStatus @ '' to '' @
                status_name newStatus @ ''. Valid: '' @
                (if valid \<noteq> [] then join '', '' (map status_name valid)
                 else ''none (terminal state)''))
        else
          let roles = the (map_of (the allowed) newStatus) in
          if role \<notin> set roles then
            Some (''Role '' @ role_name role @ '' cannot move job from '' @
                  status_name currentStatus @ '' to '' @ status_name newStatus @
                  ''. Allowed: '' @ join '', '' (map role_name roles))
          else None)"

subsection \<open>The table of the specification\<close>

text \<open>
  The authoritative table of section 4.1 of the specification, row by row:
  current status, target status, allowed roles. BILLED has no row. This definition
  follows the specification; \<open>validateTransition\<close> above follows the code.
\<close>

definition spec_table :: "(job_status \<times> job_status \<times> role list) list" where
  "spec_table =
     [(TENTATIVE, CONFIRMED, [ADMIN]),
      (CONFIRMED, ASSIGNED, [ADMIN]),
      (ASSIGNED, DISPATCHED, [OFFICE_MANAGER]),
      (DISPATCHED, IN_PROGRESS, [TECHNICIAN]),
      (IN_PROGRESS, COMPLETED, [TECHNICIAN]),
      (COMPLETED, BILLED, [OFFICE_MANAGER])]"

definition spec_targets :: "job_status \<Rightarrow> job_status list" where
  "spec_targets s = map (\<lambda>(c, t, rs). t) (filter (\<lambda>(c, t, rs). c = s) spec_table)"

definition spec_allows :: "job_status \<Rightarrow> job_status \<Rightarrow> role \<Rightarrow> bool" where
  "spec_allows c t r = (\<exists>rs. (c, t, rs) \<in> set spec_table \<and> r \<in> set rs)"

definition spec_on_table :: "job_status \<Rightarrow> job_status \<Rightarrow> bool" where
  "spec_on_table c t = (\<exists>rs. (c, t, rs) \<in> set spec_table)"

section \<open>Strings\<close>

text \<open>
  A JavaScript string is a sequence of UTF-16 code units. Text that comes from a
  request or from a stored document is a list of 16-bit words. The literals of the
  program, and the messages it builds from them and from the names of statuses and
  roles, are character strings; \<open>lit\<close> reads one as code units.
\<close>

type_synonym code_unit = "16 word"
type_synonym js_string = "code_unit list"

definition lit :: "string \<Rightarrow> js_string" where
  "lit s = map of_char s"

text \<open>
  \<^verbatim>\<open>String.prototype.trim\<close> removes from both ends the code units that are white
  space or line terminators of the language: U+0009 to U+000D, U+0020, U+00A0, U+FEFF,
  the other space separators of Unicode (U+1680, U+2000 to U+200A, U+202F, U+205F,
  U+3000) and the line and paragraph separators U+2028 and U+2029.
\<close>

definition js_whitespace :: "code_unit \<Rightarrow> bool" where
  "js_whitespace c \<longleftrightarrow>
     c \<in> set [0x0009, 0x000A, 0x000B, 0x000C, 0x000D, 0x0020, 0x00A0, 0x1680,
              0x2000, 0x2001, 0x2002, 0x2003, 0x2004, 0x2005, 0x2006, 0x2007,
              0x2008, 0x2009, 0x200A, 0x2028, 0x2029, 0x202F, 0x205F, 0x3000, 0xFEFF]"

definition js_trim :: "js_string \<Rightarrow> js_string" where
  "js_trim s = rev (dropWhile js_whitespace (rev (dropWhile js_whitespace s)))"

text \<open>
  \<^verbatim>\<open>String.prototype.toLowerCase\<close>, on the letters A to Z; other letters are left as
  they are. It is used by the setter of \<^verbatim>\<open>customerEmail\<close> only.
\<close>

definition toLowerCase :: "js_string \<Rightarrow> js_string" where
  "toLowerCase s = map (\<lambda>c. if 0x41 \<le> c \<and> c \<le> 0x5A then c + 0x20 else c) s"

text \<open>An optional string as a condition (\<^verbatim>\<open>!notes\<close>) and under \<^verbatim>\<open>||\<close>.\<close>

definition falsy :: "js_string option \<Rightarrow> bool" where
  "falsy s \<longleftrightarrow> s = None \<or> s = Some []"

definition or_else :: "js_string option \<Rightarrow> js_string \<Rightarrow> js_string" where
  "or_else s dflt = (if falsy s then dflt else the s)"

section \<open>Documents and the store\<close>

text \<open>
  Object ids and dates are natural numbers. A user document carries the fields the job
  operations read (\<^verbatim>\<open>_id\<close>, \<^verbatim>\<open>name\<close>, \<^verbatim>\<open>role\<close>); the user model itself is
  outside the sources at hand.
\<close>

type_synonym object_id = nat
type_synonym date = nat

record user =
  user_id :: object_id
  user_name :: js_string
  user_role :: role

text \<open>
  The sub-schema \<^verbatim>\<open>statusHistorySchema\<close> and the schema \<^verbatim>\<open>jobSchema\<close> of the job
  model. \<^verbatim>\<open>fromStatus\<close> is \<open>None\<close> for \<^verbatim>\<open>null\<close>. The \<^verbatim>\<open>_id\<close> of a history
  entry and the \<^verbatim>\<open>createdAt\<close>/\<^verbatim>\<open>updatedAt\<close> stamps of a job are generated by the
  storage layer and read by no operation; they are left out. Costs are integers.
\<close>

record history_entry =
  fromStatus :: "job_status option"
  toStatus :: job_status
  changedBy :: object_id
  changedAt :: date
  entry_notes :: js_string

record job =
  title :: js_string
  description :: "js_string option"
  customerName :: js_string
  customerPhone :: "js_string option"
  customerEmail :: "js_string option"
  address :: "js_string option"
  scheduledDate :: "date option"
  status :: job_status
  assignedTechnician :: "object_id option"
  createdBy :: object_id
  statusHistory :: "history_entry list"
  estimatedCost :: "int option"
  actualCost :: "int option"
  completedAt :: "date option"
  billedAt :: "date option"
  job_notes :: "js_string option"

text \<open>
  A plain object whose keys are paths of the job schema: the object handed to
  \<^verbatim>\<open>Job.create\<close>, a \<^verbatim>\<open>$set\<close> document, the top-level keys of a request body.
  \<open>None\<close> is an absent key.
\<close>

record fields =
  f_title :: "js_string option"
  f_description :: "js_string option"
  f_customerName :: "js_string option"
  f_customerPhone :: "js_string option"
  f_customerEmail :: "js_string option"
  f_address :: "js_string option"
  f_scheduledDate :: "date option"
  f_status :: "job_status option"
  f_assignedTechnician :: "object_id option"
  f_createdBy :: "object_id option"
  f_statusHistory :: "history_entry list option"
  f_estimatedCost :: "int option"
  f_actualCost :: "int option"
  f_completedAt :: "date option"
  f_billedAt :: "date option"
  f_notes :: "js_string option"

definition no_fields :: fields where
  "no_fields = \<lparr>f_title = None, f_description = None, f_customerName = None,
     f_customerPhone = None, f_customerEmail = None, f_address = None,
     f_scheduledDate = None, f_status = None, f_assignedTechnician = None,
     f_createdBy = None, f_statusHistory = None, f_estimatedCost = None,
     f_actualCost = None, f_completedAt = None, f_billedAt = None, f_notes = None\<rparr>"

text \<open>
  The body of a detail edit is the parsed JSON of the request, handed on as an update
  document. Besides top-level schema keys (\<open>b_top\<close>) it may carry update operators as
  keys: \<^verbatim>\<open>$set\<close> with a document of schema keys (\<open>b_set\<close>), and \<^verbatim>\<open>$pop\<close> on the
  history array (\<open>b_pop\<close>), \<^verbatim>\<open>{ statusHistory: -1 }\<close> for the first element and
  \<^verbatim>\<open>{ statusHistory: 1 }\<close> for the last. Other operators and dotted paths are
  outside this type. A body is plain when it has top-level schema keys only.
\<close>

datatype array_end = Pop_first | Pop_last

record body =
  b_top :: fields
  b_set :: "fields option"
  b_pop :: "array_end option"

definition plain_body :: "fields \<Rightarrow> body" where
  "plain_body f = \<lparr>b_top = f, b_set = None, b_pop = None\<rparr>"

definition plain :: "body \<Rightarrow> bool" where
  "plain b \<longleftrightarrow> b_set b = None \<and> b_pop b = None"

record db =
  jobs :: "object_id \<rightharpoonup> job"
  users :: "object_id \<rightharpoonup> user"

datatype exn = ValidationError | VersionError | DuplicateKeyError | ConflictingUpdate

fun exn_message :: "exn \<Rightarrow> string" where
  "exn_message ValidationError = ''ValidationError''"
| "exn_message VersionError = ''VersionError''"
| "exn_message DuplicateKeyError = ''DuplicateKeyError''"
| "exn_message ConflictingUpdate = ''ConflictingUpdateOperators''"

subsection \<open>Schema setters and validators\<close>

text \<open>
  The object-document mapper casts what it is about to store against the schema. The
  setters of the job model are \<^verbatim>\<open>trim\<close> on its strings (\<^verbatim>\<open>notes\<close> of a history
  entry included) and \<^verbatim>\<open>lowercase\<close> on \<^verbatim>\<open>customerEmail\<close>.
\<close>

definition cast_entry :: "history_entry \<Rightarrow> history_entry" where
  "cast_entry e = e\<lparr>entry_notes := js_trim (entry_notes e)\<rparr>"

definition cast_fields :: "fields \<Rightarrow> fields" where
  "cast_fields f =
     f\<lparr>f_title := map_option js_trim (f_title f),
       f_description := map_option js_trim (f_description f),
       f_customerName := map_option js_trim (f_customerName f),
       f_customerPhone := map_option js_trim (f_customerPhone f),
       f_customerEmail := map_option (\<lambda>s. js_trim (toLowerCase s)) (f_customerEmail f),
       f_address := map_option js_trim (f_address f),
       f_statusHistory := map_option (map cast_entry) (f_statusHistory f),
       f_notes := map_option js_trim (f_notes f)\<rparr>"

text \<open>
  The validators that can reject a write are \<^verbatim>\<open>required\<close> on \<^verbatim>\<open>title\<close>,
  \<^verbatim>\<open>customerName\<close> and \<^verbatim>\<open>createdBy\<close> and \<^verbatim>\<open>min: 0\<close> on the two costs. They
  see the values after the setters.
\<close>

definition min0 :: "int option \<Rightarrow> bool" where
  "min0 c = (case c of None \<Rightarrow> True | Some v \<Rightarrow> 0 \<le> v)"

definition present :: "js_string option \<Rightarrow> bool" where
  "present s = (case s of None \<Rightarrow> False | Some v \<Rightarrow> v \<noteq> [])"

definition create_valid :: "fields \<Rightarrow> bool" where
  "create_valid f \<longleftrightarrow> present (f_title f) \<and> present (f_customerName f) \<and>
     f_createdBy f \<noteq> None \<and> min0 (f_estimatedCost f) \<and> min0 (f_actualCost f)"

definition update_valid :: "fields \<Rightarrow> bool" where
  "update_valid f \<longleftrightarrow> f_title f \<noteq> Some [] \<and> f_customerName f \<noteq> Some [] \<and>
     min0 (f_estimatedCost f) \<and> min0 (f_actualCost f)"

subsection \<open>Store primitives\<close>

text \<open>
  The calls of the object-document mapper the operations await, each one atomic on the
  single document it addresses.
\<close>

definition findById :: "db \<Rightarrow> object_id \<Rightarrow> job option" where
  "findById d i = jobs d i"

definition User_findById :: "db \<Rightarrow> object_id \<Rightarrow> user option" where
  "User_findById d i = users d i"

text \<open>The document \<^verbatim>\<open>Job.create\<close> builds: \<^verbatim>\<open>status\<close> defaults to TENTATIVE.\<close>

definition new_document :: "fields \<Rightarrow> job" where
  "new_document f =
     \<lparr>title = the (f_title f), description = f_description f,
      customerName = the (f_customerName f), customerPhone = f_customerPhone f,
      customerEmail = f_customerEmail f, address = f_address f,
      scheduledDate = f_scheduledDate f,
      status = (case f_status f of None \<Rightarrow> TENTATIVE | Some s \<Rightarrow> s),
      assignedTechnician = f_assignedTechnician f,
      createdBy = the (f_createdBy f),
      statusHistory = (case f_statusHistory f of None \<Rightarrow> [] | Some h \<Rightarrow> h),
      estimatedCost = f_estimatedCost f, actualCost = f_actualCost f,
      completedAt = f_completedAt f, billedAt = f_billedAt f, job_notes = f_notes f\<rparr>"

text \<open>
  \<^verbatim>\<open>Job.create\<close>: the values are cast, then validated, then stored. \<open>newId\<close> is
  the \<^verbatim>\<open>_id\<close> the driver generates for the document.
\<close>

definition create :: "db \<Rightarrow> object_id \<Rightarrow> fields \<Rightarrow> (exn + job) \<times> db" where
  "create d newId f =
     (let c = cast_fields f in
      if \<not> create_valid c then (Inl ValidationError, d)
      else if jobs d newId \<noteq> None then (Inl DuplicateKeyError, d)
      else (Inr (new_document c), d\<lparr>jobs := (jobs d)(newId \<mapsto> new_document c)\<rparr>))"

text \<open>\<^verbatim>\<open>$set\<close>: every key present in the update overwrites the path.\<close>

definition over :: "'a option \<Rightarrow> 'a \<Rightarrow> 'a" where
  "over u v = (case u of None \<Rightarrow> v | Some w \<Rightarrow> w)"

definition over_opt :: "'a option \<Rightarrow> 'a option \<Rightarrow> 'a option" where
  "over_opt u v = (case u of None \<Rightarrow> v | Some w \<Rightarrow> Some w)"

definition apply_set :: "fields \<Rightarrow> job \<Rightarrow> job" where
  "apply_set f j =
     \<lparr>title = over (f_title f) (title j),
      description = over_opt (f_description f) (description j),
      customerName = over (f_customerName f) (customerName j),
      customerPhone = over_opt (f_customerPhone f) (customerPhone j),
      customerEmail = over_opt (f_customerEmail f) (customerEmail j),
      address = over_opt (f_address f) (address j),
      scheduledDate = over_opt (f_scheduledDate f) (scheduledDate j),
      status = over (f_status f) (status j),
      assignedTechnician = over_opt (f_assignedTechnician f) (assignedTechnician j),
      createdBy = over (f_createdBy f) (createdBy j),
      statusHistory = over (f_statusHistory f) (statusHistory j),
      estimatedCost = over_opt (f_estimatedCost f) (estimatedCost j),
      actualCost = over_opt (f_actualCost f) (actualCost j),
      completedAt = over_opt (f_completedAt f) (completedAt j),
      billedAt = over_opt (f_billedAt f) (billedAt j),
      job_notes = over_opt (f_notes f) (job_notes j)\<rparr>"

text \<open>
  \<^verbatim>\<open>{ $set, $push: { statusHistory: entry } }\<close> applied to a document. The pushed
  entry is cast by the sub-schema, so its note is stored trimmed. The \<^verbatim>\<open>$set\<close>
  documents the operations pass here hold a status, a technician and the two stamps,
  which the cast leaves as they are.
\<close>

definition apply_update :: "fields \<Rightarrow> history_entry \<Rightarrow> job \<Rightarrow> job" where
  "apply_update f e j =
     (let j' = apply_set f j in j'\<lparr>statusHistory := statusHistory j' @ [cast_entry e]\<rparr>)"

text \<open>
  \<^verbatim>\<open>Job.findOneAndUpdate({ _id, status }, { $set, $push }, { new: true })\<close>: the
  conditional update. It writes only when the stored document still has the expected
  status, and returns the updated document, or \<open>None\<close> for \<^verbatim>\<open>null\<close>.
\<close>

definition findOneAndUpdate ::
  "db \<Rightarrow> object_id \<Rightarrow> job_status \<Rightarrow> fields \<Rightarrow> history_entry \<Rightarrow> job option \<times> db" where
  "findOneAndUpdate d i expected f e =
     (case jobs d i of
        None \<Rightarrow> (None, d)
      | Some j \<Rightarrow>
          if status j = expected
          then (Some (apply_update f e j), d\<lparr>jobs := (jobs d)(i \<mapsto> apply_update f e j)\<rparr>)
          else (None, d))"

text \<open>
  The update document the mapper derives from the object it is given: the top-level
  keys are moved into \<^verbatim>\<open>$set\<close>, where they win over a key of the same name, and the
  operators are kept.
\<close>

definition merge :: "fields \<Rightarrow> fields \<Rightarrow> fields" where
  "merge f g =
     \<lparr>f_title = over_opt (f_title f) (f_title g),
      f_description = over_opt (f_description f) (f_description g),
      f_customerName = over_opt (f_customerName f) (f_customerName g),
      f_customerPhone = over_opt (f_customerPhone f) (f_customerPhone g),
      f_customerEmail = over_opt (f_customerEmail f) (f_customerEmail g),
      f_address = over_opt (f_address f) (f_address g),
      f_scheduledDate = over_opt (f_scheduledDate f) (f_scheduledDate g),
      f_status = over_opt (f_status f) (f_status g),
      f_assignedTechnician = over_opt (f_assignedTechnician f) (f_assignedTechnician g),
      f_createdBy = over_opt (f_createdBy f) (f_createdBy g),
      f_statusHistory = over_opt (f_statusHistory f) (f_statusHistory g),
      f_estimatedCost = over_opt (f_estimatedCost f) (f_estimatedCost g),
      f_actualCost = over_opt (f_actualCost f) (f_actualCost g),
      f_completedAt = over_opt (f_completedAt f) (f_completedAt g),
      f_billedAt = over_opt (f_billedAt f) (f_billedAt g),
      f_notes = over_opt (f_notes f) (f_notes g)\<rparr>"

definition set_document :: "body \<Rightarrow> fields" where
  "set_document u = merge (b_top u) (case b_set u of None \<Rightarrow> no_fields | Some s \<Rightarrow> s)"

text \<open>\<^verbatim>\<open>$pop\<close> on the history array; on an empty array it does nothing.\<close>

definition apply_pop :: "array_end option \<Rightarrow> job \<Rightarrow> job" where
  "apply_pop p j =
     (case p of
        None \<Rightarrow> j
      | Some Pop_first \<Rightarrow> j\<lparr>statusHistory := tl (statusHistory j)\<rparr>
      | Some Pop_last \<Rightarrow> j\<lparr>statusHistory := butlast (statusHistory j)\<rparr>)"

text \<open>
  \<^verbatim>\<open>Job.findByIdAndUpdate(id, update, { new: true, runValidators: true })\<close>. The
  values of \<^verbatim>\<open>$set\<close> are cast and validated before the update is sent; the store
  refuses an update that names the history array both in \<^verbatim>\<open>$set\<close> and in
  \<^verbatim>\<open>$pop\<close>; otherwise the operators are applied to the document with that id, if
  there is one.
\<close>

definition findByIdAndUpdate ::
  "db \<Rightarrow> object_id \<Rightarrow> body \<Rightarrow> (exn + job option) \<times> db" where
  "findByIdAndUpdate d i u =
     (let s = cast_fields (set_document u) in
      if \<not> update_valid s then (Inl ValidationError, d)
      else if f_statusHistory s \<noteq> None \<and> b_pop u \<noteq> None then (Inl ConflictingUpdate, d)
      else case jobs d i of
        None \<Rightarrow> (Inr None, d)
      | Some j \<Rightarrow>
          (Inr (Some (apply_pop (b_pop u) (apply_set s j))),
           d\<lparr>jobs := (jobs d)(i \<mapsto> apply_pop (b_pop u) (apply_set s j))\<rparr>))"

definition findByIdAndDelete :: "db \<Rightarrow> object_id \<Rightarrow> db" where
  "findByIdAndDelete d i = d\<lparr>jobs := (jobs d)(i := None)\<rparr>"

text \<open>
  \<^verbatim>\<open>job.save()\<close> on a loaded document whose modified paths are the keys of \<open>f\<close> and
  whose history array received one \<^verbatim>\<open>push\<close>: the mapper sends these changes keyed on
  \<^verbatim>\<open>_id\<close> alone, and throws a version error when no document has that id any more.
\<close>

definition save :: "db \<Rightarrow> object_id \<Rightarrow> fields \<Rightarrow> history_entry \<Rightarrow> (exn + unit) \<times> db" where
  "save d i f e =
     (case jobs d i of
        None \<Rightarrow> (Inl VersionError, d)
      | Some j \<Rightarrow> (Inr (), d\<lparr>jobs := (jobs d)(i \<mapsto> apply_update f e j)\<rparr>))"

section \<open>Asynchronous operations\<close>

text \<open>
  An \<^verbatim>\<open>async\<close> function runs up to each \<^verbatim>\<open>await\<close> of a store call, and other
  requests may run between two of its awaits. An operation is therefore a program:
  either it has returned, or its next step is one atomic store call, given as a function
  from the store to the rest of the program and the store after the call.
\<close>

datatype 'r prog = Return 'r | Await "db \<Rightarrow> 'r prog \<times> db"

text \<open>Running a program alone, with no other request in between.\<close>

primrec exec :: "'r prog \<Rightarrow> db \<Rightarrow> 'r \<times> db" where
  "exec (Return r) = (\<lambda>d. (r, d))"
| "exec (Await f) = (\<lambda>d. case map_prod exec id (f d) of (k, d') \<Rightarrow> k d')"

text \<open>One step of a program.\<close>

fun step :: "'r prog \<Rightarrow> db \<Rightarrow> 'r prog \<times> db" where
  "step (Return r) d = (Return r, d)"
| "step (Await f) d = f d"

text \<open>
  Several requests in flight: a list of programs over one store. A schedule is the list
  of the indices of the requests that take the next step, in order.
\<close>

fun step_thread :: "nat \<Rightarrow> 'r prog list \<times> db \<Rightarrow> 'r prog list \<times> db" where
  "step_thread i (ps, d) =
     (if i < length ps then (case step (ps ! i) d of (p', d') \<Rightarrow> (ps[i := p'], d'))
      else (ps, d))"

definition run_schedule :: "nat list \<Rightarrow> 'r prog list \<times> db \<Rightarrow> 'r prog list \<times> db" where
  "run_schedule sched s = fold step_thread sched s"

datatype 'a outcome = Success 'a | Failure string nat | Thrown exn

section \<open>The job service\<close>

text \<open>
  \<^verbatim>\<open>src/services/JobService.js\<close>. A service function returns \<^verbatim>\<open>{ data }\<close>
  (\<open>Success\<close>) or \<^verbatim>\<open>{ error, status }\<close> (\<open>Failure\<close>), or throws what the store
  throws (\<open>Thrown\<close>). \<^verbatim>\<open>populate\<close> only decorates the returned snapshot with user
  documents and is left out. \<open>now\<close> is the reading of the clock (\<^verbatim>\<open>new Date()\<close>).
\<close>

subsection \<open>createJob\<close>

definition creation_entry :: "object_id \<Rightarrow> date \<Rightarrow> history_entry" where
  "creation_entry userId now =
     \<lparr>fromStatus = None, toStatus = TENTATIVE, changedBy = userId, changedAt = now,
      entry_notes = lit ''Job created''\<rparr>"

definition createJob :: "fields \<Rightarrow> object_id \<Rightarrow> date \<Rightarrow> object_id \<Rightarrow> job outcome prog" where
  "createJob data userId now newId =
     Await (\<lambda>d.
       case create d newId
              \<lparr>f_title = f_title data, f_description = f_description data,
               f_customerName = f_customerName data,
               f_customerPhone = f_customerPhone data,
               f_customerEmail = f_customerEmail data, f_address = f_address data,
               f_scheduledDate = f_scheduledDate data, f_status = Some TENTATIVE,
               f_assignedTechnician = None, f_createdBy = Some userId,
               f_statusHistory = Some [creation_entry userId now],
               f_estimatedCost = f_estimatedCost data, f_actualCost = None,
               f_completedAt = None, f_billedAt = None, f_notes = f_notes data\<rparr> of
         (Inl e, d') \<Rightarrow> (Return (Thrown e), d')
       | (Inr job, d') \<Rightarrow> (Return (Success job), d'))"

subsection \<open>transitionStatus\<close>

text \<open>Step 4 of \<^verbatim>\<open>transitionStatus\<close>: the \<^verbatim>\<open>$set\<close> document and the history entry.\<close>

definition transition_set :: "job_status \<Rightarrow> date \<Rightarrow> fields" where
  "transition_set newStatus now =
     (let s0 = no_fields\<lparr>f_status := Some newStatus\<rparr>;
          s1 = (if newStatus = COMPLETED then s0\<lparr>f_completedAt := Some now\<rparr> else s0)
      in if newStatus = BILLED then s1\<lparr>f_billedAt := Some now\<rparr> else s1)"

definition transition_entry ::
  "job_status \<Rightarrow> job_status \<Rightarrow> user \<Rightarrow> js_string option \<Rightarrow> date \<Rightarrow> history_entry" where
  "transition_entry currentStatus newStatus user notes' now =
     \<lparr>fromStatus = Some currentStatus, toStatus = newStatus, changedBy = user_id user,
      changedAt = now,
      entry_notes = or_else notes' (lit (''Status changed from '' @ status_name currentStatus @
                                         '' to '' @ status_name newStatus))\<rparr>"

definition conflict_message :: string where
  "conflict_message =
     ''Conflict: job status was changed by another request. Please refresh and retry.''"

text \<open>Step 5: the conditional update, keyed on the status read in step 1.\<close>

definition transitionStatus_write ::
  "object_id \<Rightarrow> job_status \<Rightarrow> job_status \<Rightarrow> user \<Rightarrow> js_string option \<Rightarrow> date \<Rightarrow>
   job outcome prog" where
  "transitionStatus_write jobId currentStatus newStatus user notes' now =
     Await (\<lambda>d.
       case findOneAndUpdate d jobId currentStatus (transition_set newStatus now)
              (transition_entry currentStatus newStatus user notes' now) of
         (None, d') \<Rightarrow> (Return (Failure conflict_message 409), d')
       | (Some updated, d') \<Rightarrow> (Return (Success updated), d'))"

text \<open>Steps 1 to 3: the read and the checks on the snapshot.\<close>

definition transitionStatus ::
  "object_id \<Rightarrow> job_status \<Rightarrow> user \<Rightarrow> js_string option \<Rightarrow> date \<Rightarrow> job outcome prog" where
  "transitionStatus jobId newStatus user notes' now =
     Await (\<lambda>d.
       (case findById d jobId of
          None \<Rightarrow> Return (Failure ''Job not found'' 404)
        | Some job \<Rightarrow>
            let currentStatus = status job in
            case validateTransition currentStatus newStatus (user_role user) of
              Some err \<Rightarrow> Return (Failure err 400)
            | None \<Rightarrow>
                if newStatus = DISPATCHED \<and> (falsy notes' \<or> js_trim (the notes') = [])
                then Return (Failure
                       ''Notes are required when dispatching a job to a technician'' 400)
                else if user_role user = TECHNICIAN \<and>
                        (assignedTechnician job = None \<or>
                         the (assignedTechnician job) \<noteq> user_id user)
                then Return (Failure ''You are not assigned to this job'' 403)
                else transitionStatus_write jobId currentStatus newStatus user notes' now,
        d))"

subsection \<open>assignTechnician\<close>

definition assignment_entry :: "user \<Rightarrow> user \<Rightarrow> js_string option \<Rightarrow> date \<Rightarrow> history_entry" where
  "assignment_entry technician user notes' now =
     \<lparr>fromStatus = Some CONFIRMED, toStatus = ASSIGNED, changedBy = user_id user,
      changedAt = now,
      entry_notes = or_else notes' (lit ''Assigned to '' @ user_name technician)\<rparr>"

text \<open>The branch taken when the conditional update returned \<^verbatim>\<open>null\<close>.\<close>

definition assignTechnician_diagnose :: "object_id \<Rightarrow> job outcome prog" where
  "assignTechnician_diagnose jobId =
     Await (\<lambda>d.
       (case findById d jobId of
          None \<Rightarrow> Return (Failure ''Job not found'' 404)
        | Some current \<Rightarrow>
            Return (Failure (''Job must be CONFIRMED to assign. Current status: '' @
                             status_name (status current)) 400),
        d))"

definition assignTechnician_write ::
  "object_id \<Rightarrow> object_id \<Rightarrow> user \<Rightarrow> user \<Rightarrow> js_string option \<Rightarrow> date \<Rightarrow> job outcome prog" where
  "assignTechnician_write jobId technicianId technician user notes' now =
     Await (\<lambda>d.
       case findOneAndUpdate d jobId CONFIRMED
              (no_fields\<lparr>f_status := Some ASSIGNED, f_assignedTechnician := Some technicianId\<rparr>)
              (assignment_entry technician user notes' now) of
         (None, d') \<Rightarrow> (assignTechnician_diagnose jobId, d')
       | (Some updated, d') \<Rightarrow> (Return (Success updated), d'))"

definition assignTechnician ::
  "object_id \<Rightarrow> object_id \<Rightarrow> user \<Rightarrow> js_string option \<Rightarrow> date \<Rightarrow> job outcome prog" where
  "assignTechnician jobId technicianId user notes' now =
     Await (\<lambda>d.
       (case User_findById d technicianId of
          None \<Rightarrow> Return (Failure ''Technician not found'' 404)
        | Some technician \<Rightarrow>
            if user_role technician \<noteq> TECHNICIAN
            then Return (Failure ''User is not a technician'' 400)
            else case validateTransition CONFIRMED ASSIGNED (user_role user) of
              Some err \<Rightarrow> Return (Failure err 400)
            | None \<Rightarrow> assignTechnician_write jobId technicianId technician user notes' now,
        d))"

subsection \<open>updateJobDetails\<close>

text \<open>
  The destructuring takes \<^verbatim>\<open>status\<close>, \<^verbatim>\<open>statusHistory\<close>,
  \<^verbatim>\<open>assignedTechnician\<close> and \<^verbatim>\<open>createdBy\<close> out of the top level of the input;
  every other key, an operator included, stays in \<^verbatim>\<open>safeData\<close>.
\<close>

definition updateJobDetails :: "object_id \<Rightarrow> body \<Rightarrow> job outcome prog" where
  "updateJobDetails jobId data =
     (let safeData = data\<lparr>b_top := (b_top data)\<lparr>f_status := None, f_statusHistory := None,
                             f_assignedTechnician := None, f_createdBy := None\<rparr>\<rparr>
      in Await (\<lambda>d.
           case findByIdAndUpdate d jobId safeData of
             (Inl e, d') \<Rightarrow> (Return (Thrown e), d')
           | (Inr None, d') \<Rightarrow> (Return (Failure ''Job not found'' 404), d')
           | (Inr (Some job), d') \<Rightarrow> (Return (Success job), d')))"

section \<open>The job routes\<close>

text \<open>
  \<^verbatim>\<open>src/routes/jobs.js\<close>: the bodies of the handlers, after authentication, role
  authorization and request validation have let the request through. A response is
  \<open>Success\<close> with its payload or \<open>Failure\<close> with the message and the HTTP status; an
  exception caught by the handler is answered with status 500. Notifications and the
  broadcast do not touch the job store and are left out.
\<close>

definition catch_500 :: "'a outcome \<Rightarrow> 'a outcome" where
  "catch_500 r = (case r of Thrown e \<Rightarrow> Failure (exn_message e) 500 | _ \<Rightarrow> r)"

definition name_or :: "user option \<Rightarrow> js_string \<Rightarrow> js_string" where
  "name_or u dflt = (case u of None \<Rightarrow> dflt
                     | Some v \<Rightarrow> if user_name v = [] then dflt else user_name v)"

subsection \<open>PATCH /api/jobs/:id/reassign\<close>

definition reassignableStatuses :: "job_status list" where
  "reassignableStatuses = [ASSIGNED, DISPATCHED, IN_PROGRESS]"

definition reassign_entry ::
  "job_status \<Rightarrow> object_id \<Rightarrow> js_string option \<Rightarrow> js_string \<Rightarrow> js_string \<Rightarrow> date \<Rightarrow>
   history_entry" where
  "reassign_entry previousStatus userId notes' oldTechName newTechName now =
     \<lparr>fromStatus = Some previousStatus, toStatus = ASSIGNED, changedBy = userId,
      changedAt = now,
      entry_notes = or_else notes'
        (lit ''Reassigned from '' @ oldTechName @ lit '' to '' @ newTechName)\<rparr>"

text \<open>
  The paths the two assignments modify on the loaded document \<open>job\<close>:
  \<^verbatim>\<open>assignedTechnician\<close>, whose populated value is replaced by an id, and
  \<^verbatim>\<open>status\<close> unless the job was read as ASSIGNED, in which case the assignment
  changes nothing and the path is not sent.
\<close>

definition reassign_set :: "job \<Rightarrow> object_id \<Rightarrow> fields" where
  "reassign_set job technicianId =
     no_fields\<lparr>f_assignedTechnician := Some technicianId,
               f_status := (if status job = ASSIGNED then None else Some ASSIGNED)\<rparr>"

text \<open>\<^verbatim>\<open>job.save()\<close> and the response, which carries the document held in memory.\<close>

definition reassign_save ::
  "object_id \<Rightarrow> job \<Rightarrow> object_id \<Rightarrow> history_entry \<Rightarrow> job outcome prog" where
  "reassign_save jobId job technicianId entry =
     Await (\<lambda>d.
       case save d jobId (reassign_set job technicianId) entry of
         (Inl e, d') \<Rightarrow> (Return (Failure (exn_message e) 500), d')
       | (Inr u, d') \<Rightarrow>
           (Return (Success (apply_update (reassign_set job technicianId) entry job)), d'))"

text \<open>The lookup of the new technician's name.\<close>

definition reassign_lookup ::
  "object_id \<Rightarrow> job \<Rightarrow> object_id \<Rightarrow> user \<Rightarrow> js_string option \<Rightarrow> js_string \<Rightarrow> date \<Rightarrow>
   job outcome prog" where
  "reassign_lookup jobId job technicianId user notes' oldTechName now =
     Await (\<lambda>d.
       (let newTech = User_findById d technicianId;
            newTechName = name_or newTech (lit ''new technician'')
        in reassign_save jobId job technicianId
             (reassign_entry (status job) (user_id user) notes' oldTechName newTechName now),
        d))"

definition reassign_route ::
  "object_id \<Rightarrow> object_id \<Rightarrow> user \<Rightarrow> js_string option \<Rightarrow> date \<Rightarrow> job outcome prog" where
  "reassign_route jobId technicianId user notes' now =
     Await (\<lambda>d.
       (case findById d jobId of
          None \<Rightarrow> Return (Failure ''Job not found'' 404)
        | Some job \<Rightarrow>
            if status job \<notin> set reassignableStatuses
            then Return (Failure (''Cannot reassign a job in '' @ status_name (status job) @
                   '' status. Job must be in ASSIGNED, DISPATCHED, or IN_PROGRESS.'') 400)
            else
              let oldTechName =
                    name_or (case assignedTechnician job of None \<Rightarrow> None
                             | Some t \<Rightarrow> User_findById d t) (lit ''previous technician'')
              in reassign_lookup jobId job technicianId user notes' oldTechName now,
        d))"

subsection \<open>DELETE /api/jobs/:id\<close>

text \<open>The removal, and the response that names the title read before it.\<close>

definition delete_route_remove :: "object_id \<Rightarrow> js_string \<Rightarrow> js_string outcome prog" where
  "delete_route_remove jobId jobTitle =
     Await (\<lambda>d.
       (Return (Success (lit (''Job '' @ [CHR 0x22]) @ jobTitle @ lit ([CHR 0x22] @ '' deleted''))),
        findByIdAndDelete d jobId))"

definition delete_route :: "object_id \<Rightarrow> js_string outcome prog" where
  "delete_route jobId =
     Await (\<lambda>d.
       (case findById d jobId of
          None \<Rightarrow> Return (Failure ''Job not found'' 404)
        | Some job \<Rightarrow>
            if status job = BILLED then Return (Failure ''Billed jobs cannot be deleted'' 400)
            else delete_route_remove jobId (title job),
        d))"

subsection \<open>PUT /api/jobs/:id\<close>

definition put_route :: "object_id \<Rightarrow> body \<Rightarrow> job outcome prog" where
  "put_route jobId body =
     Await (\<lambda>d.
       (let existingJob = findById d jobId in
        if existingJob \<noteq> None \<and> status (the existingJob) = BILLED
        then Return (Failure ''Billed jobs cannot be edited'' 400)
        else map_prog catch_500 (updateJobDetails jobId body),
        d))"

section \<open>Requests and sequential histories\<close>

text \<open>
  The requests that reach the job store, and the store after a request has run alone.
  A sequential history is a list of requests handled one after the other.
\<close>

datatype request =
    Create fields object_id date object_id
  | Transition object_id job_status user "js_string option" date
  | Assign object_id object_id user "js_string option" date
  | Reassign object_id object_id user "js_string option" date
  | Edit object_id body
  | Delete object_id

fun handle :: "request \<Rightarrow> db \<Rightarrow> db" where
  "handle (Create data userId now newId) d = snd (exec (createJob data userId now newId) d)"
| "handle (Transition jobId newStatus user notes' now) d =
     snd (exec (transitionStatus jobId newStatus user notes' now) d)"
| "handle (Assign jobId technicianId user notes' now) d =
     snd (exec (assignTechnician jobId technicianId user notes' now) d)"
| "handle (Reassign jobId technicianId user notes' now) d =
     snd (exec (reassign_route jobId technicianId user notes' now) d)"
| "handle (Edit jobId body) d = snd (exec (put_route jobId body) d)"
| "handle (Delete jobId) d = snd (exec (delete_route jobId) d)"

definition history :: "request list \<Rightarrow> db \<Rightarrow> db" where
  "history rs d = fold handle rs d"

subsection \<open>A sample store\<close>

text \<open>
  The four users of the seed script, and one job taken through the life cycle by the
  end-to-end scenario: created, confirmed and assigned by the administrator, dispatched
  by the office manager with a note, started and completed by the technician, billed by
  the office manager.
\<close>

definition admin :: user where
  "admin = \<lparr>user_id = 1, user_name = lit ''Admin User'', user_role = ADMIN\<rparr>"

definition manager :: user where
  "manager = \<lparr>user_id = 2, user_name = lit ''Office Manager'', user_role = OFFICE_MANAGER\<rparr>"

definition tech1 :: user where
  "tech1 = \<lparr>user_id = 3, user_name = lit ''John Tech'', user_role = TECHNICIAN\<rparr>"

definition tech2 :: user where
  "tech2 = \<lparr>user_id = 4, user_name = lit ''Jane Tech'', user_role = TECHNICIAN\<rparr>"

definition seeded :: db where
  "seeded = \<lparr>jobs = Map.empty,
             users = [1 \<mapsto> admin, 2 \<mapsto> manager, 3 \<mapsto> tech1, 4 \<mapsto> tech2]\<rparr>"

definition new_job :: fields where
  "new_job = no_fields\<lparr>f_title := Some (lit ''Panel upgrade''),
                       f_customerName := Some (lit ''Ada'')\<rparr>"

definition scenario :: "request list" where
  "scenario =
     [Create new_job 1 100 10,
      Transition 10 CONFIRMED admin None 101,
      Assign 10 3 admin None 102,
      Transition 10 DISPATCHED manager (Some (lit ''bring part X'')) 103,
      Transition 10 IN_PROGRESS tech1 None 104,
      Transition 10 COMPLETED tech1 None 105,
      Transition 10 BILLED manager None 106]"

text \<open>The store after the first \<open>n\<close> requests of the scenario.\<close>

definition stage :: "nat \<Rightarrow> db" where
  "stage n = history (take n scenario) seeded"

section \<open>Interleaved executions\<close>

text \<open>
  A request handler that answers nothing of interest: the program of a request with its
  response forgotten, so that requests of all kinds can be in flight together.
\<close>

definition forget :: "'r prog \<Rightarrow> unit prog" where
  "forget p = map_prog (\<lambda>r. ()) p"

fun program :: "request \<Rightarrow> unit prog" where
  "program (Create data userId now newId) = forget (createJob data userId now newId)"
| "program (Transition jobId newStatus user notes' now) =
     forget (transitionStatus jobId newStatus user notes' now)"
| "program (Assign jobId technicianId user notes' now) =
     forget (assignTechnician jobId technicianId user notes' now)"
| "program (Reassign jobId technicianId user notes' now) =
     forget (reassign_route jobId technicianId user notes' now)"
| "program (Edit jobId body) = forget (put_route jobId body)"
| "program (Delete jobId) = forget (delete_route jobId)"

text \<open>
  The steps of the handlers that write to the job store, each with the values the
  handler has fixed by the time it takes the step: the insertion of \<open>createJob\<close>; the
  conditional update of \<open>transitionStatus\<close>, with the status \<open>currentStatus\<close> it read;
  the conditional update of \<open>assignTechnician\<close>; the save of a reassignment, with the
  document \<open>job\<close> it read; the update of a detail edit; the removal of a delete.
  \<open>commit\<close> is the store after the step.
\<close>

datatype store_step =
    Insert fields object_id date object_id
  | Transition_write object_id job_status job_status user "js_string option" date
  | Assign_write object_id object_id user user "js_string option" date
  | Reassign_save object_id job object_id history_entry
  | Edit_update object_id body
  | Delete_remove object_id js_string

fun commit :: "store_step \<Rightarrow> db \<Rightarrow> db" where
  "commit (Insert data userId now newId) d = snd (step (createJob data userId now newId) d)"
| "commit (Transition_write jobId currentStatus newStatus user notes' now) d =
     snd (step (transitionStatus_write jobId currentStatus newStatus user notes' now) d)"
| "commit (Assign_write jobId technicianId technician user notes' now) d =
     snd (step (assignTechnician_write jobId technicianId technician user notes' now) d)"
| "commit (Reassign_save jobId job technicianId entry) d =
     snd (step (reassign_save jobId job technicianId entry) d)"
| "commit (Edit_update jobId body) d = snd (step (updateJobDetails jobId body) d)"
| "commit (Delete_remove jobId jobTitle) d = snd (step (delete_route_remove jobId jobTitle) d)"

text \<open>
  What the checks before a write step guarantee whatever happens in between: a
  transition writes only a move the policy allowed from the status it read, and a
  reassignment saves only a job it read in a reassignable status.
\<close>

fun issued :: "store_step \<Rightarrow> bool" where
  "issued (Transition_write jobId currentStatus newStatus user notes' now) \<longleftrightarrow>
     validateTransition currentStatus newStatus (user_role user) = None"
| "issued (Reassign_save jobId job technicianId entry) \<longleftrightarrow>
     status job \<in> set reassignableStatuses"
| "issued w \<longleftrightarrow> True"

text \<open>
  The programs a request can have become: the handler of a request, or what is left of
  one after some of its steps.
\<close>

inductive in_flight :: "unit prog \<Rightarrow> bool" where
  at_start: "in_flight (program r)"
| at_transition_write:
    "validateTransition currentStatus newStatus (user_role user) = None \<Longrightarrow>
     in_flight (forget (transitionStatus_write jobId currentStatus newStatus user notes' now))"
| at_assign_write:
    "in_flight (forget (assignTechnician_write jobId technicianId technician user notes' now))"
| at_assign_diagnose: "in_flight (forget (assignTechnician_diagnose jobId))"
| at_reassign_lookup:
    "status job \<in> set reassignableStatuses \<Longrightarrow>
     in_flight (forget (reassign_lookup jobId job technicianId user notes' oldTechName now))"
| at_reassign_save:
    "status job \<in> set reassignableStatuses \<Longrightarrow>
     in_flight (forget (reassign_save jobId job technicianId entry))"
| at_delete_remove: "in_flight (forget (delete_route_remove jobId jobTitle))"
| at_edit_update: "in_flight (forget (updateJobDetails jobId body))"
| at_end: "in_flight (Return ())"

section \<open>Notions used in the statements\<close>

text \<open>The four fields a detail edit must leave alone.\<close>

definition guarded ::
  "job \<Rightarrow> job_status \<times> history_entry list \<times> object_id option \<times> object_id" where
  "guarded j = (status j, statusHistory j, assignedTechnician j, createdBy j)"

text \<open>
  What \<^verbatim>\<open>assignTechnician\<close> answers after a conditional update that matched nothing,
  as a function of the store its lookup reads.
\<close>

definition diagnostic :: "db \<Rightarrow> object_id \<Rightarrow> job outcome" where
  "diagnostic d jobId =
     (case jobs d jobId of
        None \<Rightarrow> Failure ''Job not found'' 404
      | Some current \<Rightarrow>
          Failure (''Job must be CONFIRMED to assign. Current status: '' @
                   status_name (status current)) 400)"

text \<open>
  The checks of \<^verbatim>\<open>transitionStatus\<close> on the snapshot it read, taken together: the
  request passes them when the policy allows the move, a dispatch carries a note that
  is not blank, and a technician is the job's assigned technician.
\<close>

definition admissible :: "job \<Rightarrow> job_status \<Rightarrow> user \<Rightarrow> js_string option \<Rightarrow> bool" where
  "admissible job newStatus user notes' \<longleftrightarrow>
     validateTransition (status job) newStatus (user_role user) = None \<and>
     \<not> (newStatus = DISPATCHED \<and> (falsy notes' \<or> js_trim (the notes') = [])) \<and>
     \<not> (user_role user = TECHNICIAN \<and>
        (assignedTechnician job = None \<or> the (assignedTechnician job) \<noteq> user_id user))"

text \<open>The input of a detail edit after the four guarded keys are stripped.\<close>

definition safe :: "body \<Rightarrow> body" where
  "safe data = data\<lparr>b_top := (b_top data)\<lparr>f_status := None, f_statusHistory := None,
                       f_assignedTechnician := None, f_createdBy := None\<rparr>\<rparr>"

text \<open>
  A history is chained when every record starts from the status the record before it
  ended in. The ledger of a job is sound when its history is not empty, starts with the
  creation record (from \<^verbatim>\<open>null\<close> to TENTATIVE), is chained, and ends in the status
  the job has.
\<close>

fun chained :: "history_entry list \<Rightarrow> bool" where
  "chained [] = True"
| "chained [e] = True"
| "chained (e # e' # es) = (fromStatus e' = Some (toStatus e) \<and> chained (e' # es))"

definition ledger :: "job \<Rightarrow> bool" where
  "ledger j \<longleftrightarrow>
     statusHistory j \<noteq> [] \<and>
     fromStatus (hd (statusHistory j)) = None \<and>
     toStatus (hd (statusHistory j)) = TENTATIVE \<and>
     chained (statusHistory j) \<and>
     status j = toStatus (last (statusHistory j))"

text \<open>
  A sequence of \<^verbatim>\<open>transitionStatus\<close> calls on one job, each run to its end before
  the next starts, with the outcomes in order.
\<close>

fun run_transitions ::
  "object_id \<Rightarrow> (job_status \<times> user \<times> js_string option \<times> date) list \<Rightarrow> db \<Rightarrow>
   job outcome list \<times> db" where
  "run_transitions jobId [] d = ([], d)"
| "run_transitions jobId ((newStatus, user, notes', now) # rs) d =
     (case exec (transitionStatus jobId newStatus user notes' now) d of
        (r, d') \<Rightarrow> (case run_transitions jobId rs d' of (outs, d'') \<Rightarrow> (r # outs, d'')))"

text \<open>An outcome that carries data.\<close>

definition succeeded :: "'a outcome \<Rightarrow> bool" where
  "succeeded r = (case r of Success x \<Rightarrow> True | _ \<Rightarrow> False)"

text \<open>The first moves of the sample job, as plain status transitions.\<close>

definition first_moves :: "(job_status \<times> user \<times> js_string option \<times> date) list" where
  "first_moves = [(CONFIRMED, admin, None, 101), (ASSIGNED, admin, None, 102),
              (DISPATCHED, manager, Some (lit ''bring part X''), 103)]"

text \<open>
  A write step is tame for a job when it is not a detail edit of that job whose body
  carries an update operator or supplies \<^verbatim>\<open>completedAt\<close> or \<^verbatim>\<open>billedAt\<close>, and
  not an insertion under the job's id (the storage layer never hands out an id twice).
  A write step is fresh for a job in a store when it is not the save of a reassignment
  of that job that read another status than the job has in the store by now.
\<close>

fun tame :: "object_id \<Rightarrow> store_step \<Rightarrow> bool" where
  "tame i (Edit_update jobId body) \<longleftrightarrow>
     jobId \<noteq> i \<or>
     plain body \<and> f_completedAt (b_top body) = None \<and> f_billedAt (b_top body) = None"
| "tame i (Insert data userId now newId) \<longleftrightarrow> newId \<noteq> i"
| "tame i w \<longleftrightarrow> True"

fun fresh :: "object_id \<Rightarrow> store_step \<Rightarrow> db \<Rightarrow> bool" where
  "fresh i (Reassign_save jobId job technicianId entry) d \<longleftrightarrow>
     jobId \<noteq> i \<or> jobs d i = None \<or> map_option status (jobs d i) = Some (status job)"
| "fresh i w d \<longleftrightarrow> True"

text \<open>
  A run of write steps from a store is regular for a job when every step is one the
  handlers issue, is tame for the job, and is fresh for the job in the store it is taken
  in.
\<close>

fun regular :: "object_id \<Rightarrow> store_step list \<Rightarrow> db \<Rightarrow> bool" where
  "regular i [] d \<longleftrightarrow> True"
| "regular i (w # ws) d \<longleftrightarrow>
     issued w \<and> tame i w \<and> fresh i w d \<and> regular i ws (commit w d)"

text \<open>
  A request is polite to a job when it is not a detail edit of that job whose body
  carries an update operator or supplies \<^verbatim>\<open>completedAt\<close> or \<^verbatim>\<open>billedAt\<close>, and
  not a creation under the job's id.
\<close>

fun polite :: "object_id \<Rightarrow> request \<Rightarrow> bool" where
  "polite i (Edit jobId body) \<longleftrightarrow>
     jobId \<noteq> i \<or>
     plain body \<and> f_completedAt (b_top body) = None \<and> f_billedAt (b_top body) = None"
| "polite i (Create data userId now newId) \<longleftrightarrow> newId \<noteq> i"
| "polite i r \<longleftrightarrow> True"

text \<open>
  The writes of a field of a job along a run of write steps are the steps across which
  the job stays in the store and the field changes its value.
\<close>

fun writes :: "(job \<Rightarrow> 'a) \<Rightarrow> object_id \<Rightarrow> store_step list \<Rightarrow> db \<Rightarrow> nat" where
  "writes field i [] d = 0"
| "writes field i (w # ws) d =
     (if jobs d i \<noteq> None \<and> jobs (commit w d) i \<noteq> None \<and>
         map_option field (jobs (commit w d) i) \<noteq> map_option field (jobs d i)
      then 1 else 0) + writes field i ws (commit w d)"

text \<open>
  The conditional update of a transition of the job to \<open>T\<close> lands in a store when
  the job has there the status the update expects. The landings of \<open>T\<close> along a run
  are the steps that are such updates and land.
\<close>

fun lands :: "job_status \<Rightarrow> object_id \<Rightarrow> store_step \<Rightarrow> db \<Rightarrow> bool" where
  "lands T i (Transition_write jobId currentStatus newStatus user notes' now) d \<longleftrightarrow>
     jobId = i \<and> newStatus = T \<and> map_option status (jobs d i) = Some currentStatus"
| "lands T i w d \<longleftrightarrow> False"

fun landings :: "job_status \<Rightarrow> object_id \<Rightarrow> store_step list \<Rightarrow> db \<Rightarrow> nat" where
  "landings T i [] d = 0"
| "landings T i (w # ws) d = (if lands T i w d then 1 else 0) + landings T i ws (commit w d)"

text \<open>
  The stamps agree with the status: \<^verbatim>\<open>completedAt\<close> is set only on a job that is
  COMPLETED or BILLED, \<^verbatim>\<open>billedAt\<close> only on a job that is BILLED.
\<close>

definition stamped_ok :: "job \<Rightarrow> bool" where
  "stamped_ok j \<longleftrightarrow>
     (completedAt j \<noteq> None \<longrightarrow> status j = COMPLETED \<or> status j = BILLED) \<and>
     (billedAt j \<noteq> None \<longrightarrow> status j = BILLED)"

definition stamps_inv :: "db \<Rightarrow> object_id \<Rightarrow> bool" where
  "stamps_inv d i = (case jobs d i of None \<Rightarrow> True | Some j \<Rightarrow> stamped_ok j)"

text \<open>
  The write steps of a life of the sample job, from the store that holds it newly
  created: it is confirmed (a second confirmation that read the same status comes too
  late), assigned, dispatched, reassigned to the second technician, dispatched again,
  started, given its actual cost by a detail edit, completed (a second completion
  comes too late) and billed.
\<close>

definition sample_steps :: "store_step list" where
  "sample_steps =
     [Transition_write 10 TENTATIVE CONFIRMED admin None 101,
      Transition_write 10 TENTATIVE CONFIRMED admin None 101,
      Assign_write 10 3 tech1 admin None 102,
      Transition_write 10 ASSIGNED DISPATCHED manager (Some (lit ''bring part X'')) 103,
      Reassign_save 10 (the (jobs (stage 4) 10)) 4
        (reassign_entry DISPATCHED 1 None (lit ''John Tech'') (lit ''Jane Tech'') 104),
      Transition_write 10 ASSIGNED DISPATCHED manager (Some (lit ''side gate'')) 105,
      Transition_write 10 DISPATCHED IN_PROGRESS tech2 None 106,
      Edit_update 10 (plain_body (no_fields\<lparr>f_actualCost := Some 90\<rparr>)),
      Transition_write 10 IN_PROGRESS COMPLETED tech2 None 107,
      Transition_write 10 IN_PROGRESS COMPLETED tech2 None 108,
      Transition_write 10 COMPLETED BILLED manager None 109]"

text \<open>What a program has returned, if it has.\<close>

fun returned :: "'r prog \<Rightarrow> 'r option" where
  "returned (Return r) = Some r"
| "returned (Await f) = None"

text \<open>
  Two dispatch requests of the office manager, with different notes; the second note
  has blanks around it.
\<close>

definition racers :: "(user \<times> js_string option \<times> date) list" where
  "racers = [(manager, Some (lit ''bring part X''), 200),
             (manager, Some (lit ''  use the side gate ''), 201)]"

section \<open>Properties of the transition policy\<close>

lemma validateTransition_same:
  "validateTransition c c r = Some ''Job is already in this status''"
  by (simp add: validateTransition_def)

lemma validateTransition_None_iff:
  "validateTransition c t r = None \<longleftrightarrow> spec_allows c t r"
  by (cases c; cases t; cases r)
     (simp_all add: validateTransition_def STATUS_TRANSITIONS_def spec_allows_def
        spec_table_def)

lemma validateTransition_off_table:
  "c \<noteq> t \<Longrightarrow> \<not> spec_on_table c t \<Longrightarrow>
   validateTransition c t r =
     Some (''Invalid transition from '' @ status_name c @ '' to '' @ status_name t @
           ''. Valid: '' @
           (if c = BILLED then ''none (terminal state)''
            else join '', '' (map status_name (spec_targets c))))"
  by (cases c; cases t)
     (simp_all add: validateTransition_def STATUS_TRANSITIONS_def spec_on_table_def
        spec_table_def spec_targets_def)

lemma validateTransition_wrong_role:
  "(c, t, rs) \<in> set spec_table \<Longrightarrow> r \<notin> set rs \<Longrightarrow>
   validateTransition c t r =
     Some (''Role '' @ role_name r @ '' cannot move job from '' @ status_name c @
           '' to '' @ status_name t @ ''. Allowed: '' @ join '', '' (map role_name rs))"
  by (cases r)
     (auto simp add: validateTransition_def STATUS_TRANSITIONS_def spec_table_def)

text \<open>
  Claim C2. \<open>validateTransition\<close> reports no violation exactly for the pairs of the
  table of section 4.1 requested by one of the pair's allowed roles. A request for the
  status the job is already in fails with "Job is already in this status" whatever the
  role. A target that is not in the table under the current status fails with a message
  listing the valid targets of the current status, or "none (terminal state)" for
  BILLED. A pair of the table requested by a role outside its allowed set fails with a
  message naming the allowed roles.
\<close>

theorem validateTransition_policy:
  "(validateTransition c t r = None \<longleftrightarrow> spec_allows c t r) \<and>
   validateTransition c c r = Some ''Job is already in this status'' \<and>
   (c \<noteq> t \<and> \<not> spec_on_table c t \<longrightarrow>
      validateTransition c t r =
        Some (''Invalid transition from '' @ status_name c @ '' to '' @ status_name t @
              ''. Valid: '' @
              (if c = BILLED then ''none (terminal state)''
               else join '', '' (map status_name (spec_targets c))))) \<and>
   (\<forall>rs. (c, t, rs) \<in> set spec_table \<and> r \<notin> set rs \<longrightarrow>
      validateTransition c t r =
        Some (''Role '' @ role_name r @ '' cannot move job from '' @ status_name c @
              '' to '' @ status_name t @ ''. Allowed: '' @ join '', '' (map role_name rs)))"
  using validateTransition_None_iff validateTransition_same
    validateTransition_off_table validateTransition_wrong_role
  by blast

theorem validateTransition_policy_witness:
  "validateTransition TENTATIVE CONFIRMED ADMIN = None \<and>
   spec_allows TENTATIVE CONFIRMED ADMIN \<and>
   validateTransition DISPATCHED DISPATCHED TECHNICIAN = Some ''Job is already in this status'' \<and>
   ASSIGNED \<noteq> BILLED \<and> \<not> spec_on_table ASSIGNED BILLED \<and>
   validateTransition ASSIGNED BILLED OFFICE_MANAGER =
     Some ''Invalid transition from ASSIGNED to BILLED. Valid: DISPATCHED'' \<and>
   validateTransition BILLED TENTATIVE ADMIN =
     Some ''Invalid transition from BILLED to TENTATIVE. Valid: none (terminal state)'' \<and>
   (TENTATIVE, CONFIRMED, [ADMIN]) \<in> set spec_table \<and> TECHNICIAN \<notin> set [ADMIN] \<and>
   validateTransition TENTATIVE CONFIRMED TECHNICIAN =
     Some ''Role TECHNICIAN cannot move job from TENTATIVE to CONFIRMED. Allowed: ADMIN''"
  using validateTransition_policy [of TENTATIVE CONFIRMED ADMIN]
    validateTransition_policy [of DISPATCHED DISPATCHED TECHNICIAN]
    validateTransition_policy [of ASSIGNED BILLED OFFICE_MANAGER]
    validateTransition_policy [of BILLED TENTATIVE ADMIN]
    validateTransition_policy [of TENTATIVE CONFIRMED TECHNICIAN]
  by (simp add: spec_allows_def spec_on_table_def spec_table_def spec_targets_def)

section \<open>Running programs\<close>

lemma exec_Await [simp]: "exec (Await f) d = (case f d of (p, d') \<Rightarrow> exec p d')"
  by (simp add: split_beta)

lemma exec_map_prog: "exec (map_prog g p) d = (case exec p d of (r, d') \<Rightarrow> (g r, d'))"
proof (induction p arbitrary: d)
  case (Return r)
  show ?case by simp
next
  case (Await f)
  have "f d \<in> range f" by simp
  moreover have "fst (f d) \<in> Basic_BNFs.fsts (f d)"
    by (cases "f d") simp
  ultimately have "exec (map_prog g (fst (f d))) (snd (f d)) =
      (case exec (fst (f d)) (snd (f d)) of (r, a) \<Rightarrow> (g r, a))"
    by (rule Await)
  then show ?case
    by (simp add: split_beta)
qed

section \<open>The terminal state\<close>

lemma validateTransition_BILLED:
  "validateTransition BILLED t r =
     Some (if t = BILLED then ''Job is already in this status''
           else ''Invalid transition from BILLED to '' @ status_name t @
                ''. Valid: none (terminal state)'')"
  by (simp add: validateTransition_def STATUS_TRANSITIONS_def)

text \<open>
  Claim C4. On a job whose status is BILLED, every status transition, every detail edit
  (the PUT route) and every delete (the DELETE route) is refused with status 400 at the
  first read of the job, and the store, hence the job, is left as it was. The refusal
  of a transition is the policy's: "none (terminal state)" for a target other than
  BILLED, "already in this status" for BILLED itself.
\<close>

theorem billed_is_terminal:
  assumes "map_option status (jobs d jobId) = Some BILLED"
  shows "exec (transitionStatus jobId newStatus user notes' now) d =
           (Failure (if newStatus = BILLED then ''Job is already in this status''
                     else ''Invalid transition from BILLED to '' @ status_name newStatus @
                          ''. Valid: none (terminal state)'') 400, d) \<and>
         exec (put_route jobId body) d = (Failure ''Billed jobs cannot be edited'' 400, d) \<and>
         exec (delete_route jobId) d = (Failure ''Billed jobs cannot be deleted'' 400, d)"
  using assms
  by (auto simp: transitionStatus_def put_route_def delete_route_def findById_def
      validateTransition_BILLED)

theorem billed_is_terminal_witness:
  "map_option status (jobs (stage 7) 10) = Some BILLED \<and>
   exec (transitionStatus 10 COMPLETED tech1 None 200) (stage 7) =
     (Failure ''Invalid transition from BILLED to COMPLETED. Valid: none (terminal state)'' 400,
      stage 7) \<and>
   exec (put_route 10 (plain_body (no_fields\<lparr>f_actualCost := Some 90\<rparr>))) (stage 7) =
     (Failure ''Billed jobs cannot be edited'' 400, stage 7) \<and>
   exec (delete_route 10) (stage 7) = (Failure ''Billed jobs cannot be deleted'' 400, stage 7)"
proof -
  have h: "map_option status (jobs (stage 7) 10) = Some BILLED" by code_simp
  from billed_is_terminal [OF h, of COMPLETED tech1 None 200 "plain_body (no_fields\<lparr>f_actualCost := Some 90\<rparr>)"]
  show ?thesis using h by simp
qed

section \<open>Ownership of a technician's transitions\<close>

lemma validateTransition_TECHNICIAN_DISPATCHED:
  "validateTransition c DISPATCHED TECHNICIAN \<noteq> None"
  by (cases c) (simp_all add: validateTransition_def STATUS_TRANSITIONS_def)

text \<open>
  Claim C8, as stated: every transition request of a technician who is not the job's
  assigned technician fails with "You are not assigned to this job". It does not hold
  for a request the policy rejects: the policy check comes first. On the dispatched job
  of the sample store, assigned to technician 3, technician 4 asking for COMPLETED is
  answered with the policy's message and status 400.
\<close>

theorem technician_not_assigned_counterexample:
  "user_role tech2 = TECHNICIAN \<and>
   map_option assignedTechnician (jobs (stage 4) 10) = Some (Some 3) \<and>
   user_id tech2 = 4 \<and>
   fst (exec (transitionStatus 10 COMPLETED tech2 None 200) (stage 4)) =
     Failure ''Invalid transition from DISPATCHED to COMPLETED. Valid: IN_PROGRESS'' 400 \<and>
   fst (exec (transitionStatus 10 COMPLETED tech2 None 200) (stage 4)) \<noteq>
     Failure ''You are not assigned to this job'' 403"
  by code_simp

text \<open>
  Claim C8, amended. For a transition request of a technician on an existing job whose
  assigned technician is unset or another user: when the policy allows the move for a
  technician, the request fails with status 403 and "You are not assigned to this job";
  when the policy rejects it, the request fails with the policy's message and status
  400. In both cases nothing is written.
\<close>

theorem technician_not_assigned:
  assumes "jobs d jobId = Some j"
    and "user_role user = TECHNICIAN"
    and "assignedTechnician j \<noteq> Some (user_id user)"
  shows "exec (transitionStatus jobId newStatus user notes' now) d =
           (case validateTransition (status j) newStatus TECHNICIAN of
              None \<Rightarrow> Failure ''You are not assigned to this job'' 403
            | Some err \<Rightarrow> Failure err 400, d)"
proof (cases "validateTransition (status j) newStatus TECHNICIAN")
  case None
  then have "newStatus \<noteq> DISPATCHED"
    using validateTransition_TECHNICIAN_DISPATCHED by blast
  with None assms show ?thesis
    by (auto simp: transitionStatus_def findById_def)
next
  case (Some err)
  with assms show ?thesis
    by (simp add: transitionStatus_def findById_def)
qed

theorem technician_not_assigned_witness:
  "jobs (stage 4) 10 = Some (the (jobs (stage 4) 10)) \<and>
   user_role tech2 = TECHNICIAN \<and>
   assignedTechnician (the (jobs (stage 4) 10)) \<noteq> Some (user_id tech2) \<and>
   exec (transitionStatus 10 IN_PROGRESS tech2 None 200) (stage 4) =
     (Failure ''You are not assigned to this job'' 403, stage 4) \<and>
   exec (transitionStatus 10 COMPLETED tech2 None 200) (stage 4) =
     (Failure ''Invalid transition from DISPATCHED to COMPLETED. Valid: IN_PROGRESS'' 400, stage 4)"
proof -
  have h1: "jobs (stage 4) 10 = Some (the (jobs (stage 4) 10))" by code_simp
  have h2: "user_role tech2 = TECHNICIAN" by code_simp
  have h3: "assignedTechnician (the (jobs (stage 4) 10)) \<noteq> Some (user_id tech2)" by code_simp
  have st: "status (the (jobs (stage 4) 10)) = DISPATCHED" by code_simp
  have v1: "validateTransition DISPATCHED IN_PROGRESS TECHNICIAN = None" by code_simp
  have v2: "validateTransition DISPATCHED COMPLETED TECHNICIAN =
      Some ''Invalid transition from DISPATCHED to COMPLETED. Valid: IN_PROGRESS''" by code_simp
  have c1: "exec (transitionStatus 10 IN_PROGRESS tech2 None 200) (stage 4) =
     (Failure ''You are not assigned to this job'' 403, stage 4)"
    using technician_not_assigned [OF h1 h2 h3, of IN_PROGRESS None 200] by (simp add: st v1)
  have c2: "exec (transitionStatus 10 COMPLETED tech2 None 200) (stage 4) =
     (Failure ''Invalid transition from DISPATCHED to COMPLETED. Valid: IN_PROGRESS'' 400, stage 4)"
    using technician_not_assigned [OF h1 h2 h3, of COMPLETED None 200] by (simp add: st v2)
  from h1 h2 h3 c1 c2 show ?thesis by blast
qed

section \<open>The diagnostic of a failed assignment\<close>

lemma validateTransition_assign_ADMIN:
  "validateTransition CONFIRMED ASSIGNED ADMIN = None"
  by (simp add: validateTransition_def STATUS_TRANSITIONS_def)

text \<open>
  Claim C10. Let \<open>assignTechnician\<close> reach its conditional write (the technician
  resolves to a user with role TECHNICIAN and the caller is an administrator), and let
  the write find no document with the given id and status CONFIRMED in the store \<open>d1\<close>
  it runs on. Then the write leaves \<open>d1\<close> as it was, and what remains of the operation
  is one step: in whatever store \<open>d2\<close> it runs on, it reads the job, leaves \<open>d2\<close> as it
  was and returns, with "Job not found" and status 404 when the job is absent and
  otherwise with status 400 and the message naming the status the job has in \<open>d2\<close>.
  No second write follows. Run with no other request in between, the failed write
  returns the diagnostic of \<open>d1\<close> and leaves \<open>d1\<close> as it was.
\<close>

theorem assignTechnician_conflict:
  assumes "users d0 technicianId = Some technician"
    and "user_role technician = TECHNICIAN"
    and "user_role user = ADMIN"
    and "map_option status (jobs d1 jobId) \<noteq> Some CONFIRMED"
  shows "step (assignTechnician jobId technicianId user notes' now) d0 =
           (assignTechnician_write jobId technicianId technician user notes' now, d0) \<and>
         step (assignTechnician_write jobId technicianId technician user notes' now) d1 =
           (assignTechnician_diagnose jobId, d1) \<and>
         step (assignTechnician_diagnose jobId) d2 = (Return (diagnostic d2 jobId), d2) \<and>
         exec (assignTechnician_write jobId technicianId technician user notes' now) d1 =
           (diagnostic d1 jobId, d1)"
  using assms
  by (auto simp: assignTechnician_def assignTechnician_write_def assignTechnician_diagnose_def
      User_findById_def findById_def findOneAndUpdate_def diagnostic_def
      validateTransition_assign_ADMIN split: option.splits)

theorem assignTechnician_conflict_witness:
  "users (stage 4) 4 = Some tech2 \<and> user_role tech2 = TECHNICIAN \<and> user_role admin = ADMIN \<and>
   map_option status (jobs (stage 4) 10) \<noteq> Some CONFIRMED \<and>
   step (assignTechnician 10 4 admin None 200) (stage 4) =
     (assignTechnician_write 10 4 tech2 admin None 200, stage 4) \<and>
   step (assignTechnician_write 10 4 tech2 admin None 200) (stage 4) =
     (assignTechnician_diagnose 10, stage 4) \<and>
   step (assignTechnician_diagnose 10) (stage 0) =
     (Return (Failure ''Job not found'' 404), stage 0) \<and>
   exec (assignTechnician_write 10 4 tech2 admin None 200) (stage 4) =
     (Failure ''Job must be CONFIRMED to assign. Current status: DISPATCHED'' 400, stage 4)"
proof -
  have h1: "users (stage 4) 4 = Some tech2" by code_simp
  have h2: "user_role tech2 = TECHNICIAN" by code_simp
  have h3: "user_role admin = ADMIN" by code_simp
  have h4: "map_option status (jobs (stage 4) 10) \<noteq> Some CONFIRMED" by code_simp
  have s4: "map_option status (jobs (stage 4) 10) = Some DISPATCHED" by code_simp
  have s0: "jobs (stage 0) 10 = None" by code_simp
  from assignTechnician_conflict [OF h1 h2 h3 h4, of None 200 "stage 0"]
  show ?thesis using h1 h2 h3 h4 s4 s0 by (auto simp: diagnostic_def)
qed

section \<open>What each write does to a job\<close>

lemma over_opt_simps [simp]: "over_opt None v = v" "over_opt (Some w) v = Some w"
  "over None x = x" "over (Some y) x = y"
  by (simp_all add: over_opt_def over_def)

lemma over_opt_None_right [simp]: "over_opt u None = u"
  by (cases u) simp_all

lemma apply_update_status_history:
  "statusHistory (apply_update f e j) = over (f_statusHistory f) (statusHistory j) @ [cast_entry e]"
  "status (apply_update f e j) = over (f_status f) (status j)"
  by (simp_all add: apply_update_def apply_set_def Let_def)

lemma apply_update_stamps:
  "completedAt (apply_update f e j) = over_opt (f_completedAt f) (completedAt j)"
  "billedAt (apply_update f e j) = over_opt (f_billedAt f) (billedAt j)"
  by (simp_all add: apply_update_def apply_set_def Let_def)

lemma apply_set_stamps:
  "completedAt (apply_set f j) = over_opt (f_completedAt f) (completedAt j)"
  "billedAt (apply_set f j) = over_opt (f_billedAt f) (billedAt j)"
  "status (apply_set f j) = over (f_status f) (status j)"
  "statusHistory (apply_set f j) = over (f_statusHistory f) (statusHistory j)"
  by (simp_all add: apply_set_def)

lemma apply_pop_simps:
  "status (apply_pop p j) = status j"
  "completedAt (apply_pop p j) = completedAt j"
  "billedAt (apply_pop p j) = billedAt j"
  "assignedTechnician (apply_pop p j) = assignedTechnician j"
  "createdBy (apply_pop p j) = createdBy j"
  "apply_pop None j = j"
  by (simp_all add: apply_pop_def split: option.splits array_end.splits)

lemma transition_set_simps:
  "f_status (transition_set T now) = Some T"
  "f_statusHistory (transition_set T now) = None"
  "f_assignedTechnician (transition_set T now) = None"
  "f_createdBy (transition_set T now) = None"
  "f_completedAt (transition_set T now) = (if T = COMPLETED then Some now else None)"
  "f_billedAt (transition_set T now) = (if T = BILLED then Some now else None)"
  by (simp_all add: transition_set_def no_fields_def Let_def)

lemma reassign_set_simps:
  "f_status (reassign_set job tid) = (if status job = ASSIGNED then None else Some ASSIGNED)"
  "f_statusHistory (reassign_set job tid) = None"
  "f_assignedTechnician (reassign_set job tid) = Some tid"
  "f_createdBy (reassign_set job tid) = None"
  "f_completedAt (reassign_set job tid) = None"
  "f_billedAt (reassign_set job tid) = None"
  by (simp_all add: reassign_set_def no_fields_def)

lemma cast_fields_simps:
  "f_status (cast_fields f) = f_status f"
  "f_assignedTechnician (cast_fields f) = f_assignedTechnician f"
  "f_createdBy (cast_fields f) = f_createdBy f"
  "f_completedAt (cast_fields f) = f_completedAt f"
  "f_billedAt (cast_fields f) = f_billedAt f"
  "f_statusHistory (cast_fields f) = map_option (map cast_entry) (f_statusHistory f)"
  by (simp_all add: cast_fields_def)

text \<open>The \<^verbatim>\<open>$set\<close> document of a plain body is its top level.\<close>

lemma set_document_plain: "plain b \<Longrightarrow> set_document b = b_top b"
  by (cases "b_top b") (simp add: set_document_def plain_def merge_def no_fields_def)

lemma safe_simps:
  "b_set (safe b) = b_set b"
  "b_pop (safe b) = b_pop b"
  "plain (safe b) = plain b"
  "f_status (b_top (safe b)) = None"
  "f_statusHistory (b_top (safe b)) = None"
  "f_assignedTechnician (b_top (safe b)) = None"
  "f_createdBy (b_top (safe b)) = None"
  "f_completedAt (b_top (safe b)) = f_completedAt (b_top b)"
  "f_billedAt (b_top (safe b)) = f_billedAt (b_top b)"
  by (simp_all add: safe_def plain_def)

lemma step_transitionStatus:
  "jobs d jobId = Some j \<Longrightarrow> admissible j T u n \<Longrightarrow>
   step (transitionStatus jobId T u n now) d =
     (transitionStatus_write jobId (status j) T u n now, d)"
  by (auto simp: transitionStatus_def findById_def admissible_def)

lemma transitionStatus_jobs:
  "jobs (snd (exec (transitionStatus jobId T u n now) d)) i =
     (if i = jobId \<and> (\<exists>j. jobs d jobId = Some j \<and> admissible j T u n)
      then Some (apply_update (transition_set T now)
                   (transition_entry (status (the (jobs d jobId))) T u n now)
                   (the (jobs d jobId)))
      else jobs d i)"
  by (auto simp: transitionStatus_def transitionStatus_write_def findById_def
      findOneAndUpdate_def admissible_def Let_def split: option.splits)

lemma updateJobDetails_jobs:
  "jobs (snd (exec (updateJobDetails jobId data) d)) i =
     (if i = jobId \<and> jobs d jobId \<noteq> None \<and>
         update_valid (cast_fields (set_document (safe data))) \<and>
         \<not> (f_statusHistory (set_document (safe data)) \<noteq> None \<and> b_pop data \<noteq> None)
      then Some (apply_pop (b_pop data)
                   (apply_set (cast_fields (set_document (safe data))) (the (jobs d jobId))))
      else jobs d i)"
  by (auto simp: updateJobDetails_def findByIdAndUpdate_def Let_def safe_def cast_fields_simps
      split: option.splits)

lemma put_route_jobs:
  "jobs (snd (exec (put_route jobId body) d)) i =
     (if map_option status (jobs d jobId) = Some BILLED then jobs d i
      else jobs (snd (exec (updateJobDetails jobId body) d)) i)"
  by (auto simp: put_route_def exec_map_prog split_beta findById_def Let_def)

lemma createJob_jobs:
  "jobs d i = Some j \<Longrightarrow> jobs (snd (exec (createJob data u now newId) d)) i = Some j"
  by (auto simp: createJob_def create_def Let_def)

text \<open>
  The shape of one write step on a job that is in the store before and after it: the
  job is as it was, or it received the update of the step.
\<close>

lemma commit_cases:
  assumes "jobs d i = Some j" and "jobs (commit w d) i = Some j'"
  shows "j' = j \<or>
    (\<exists>T u n now. w = Transition_write i (status j) T u n now \<and>
       j' = apply_update (transition_set T now) (transition_entry (status j) T u n now) j) \<or>
    (\<exists>tid tech u n now. w = Assign_write i tid tech u n now \<and> status j = CONFIRMED \<and>
       j' = apply_update
              (no_fields\<lparr>f_status := Some ASSIGNED, f_assignedTechnician := Some tid\<rparr>)
              (assignment_entry tech u n now) j) \<or>
    (\<exists>snap tid e. w = Reassign_save i snap tid e \<and>
       j' = apply_update (reassign_set snap tid) e j) \<or>
    (\<exists>body. w = Edit_update i body \<and>
       j' = apply_pop (b_pop body) (apply_set (cast_fields (set_document (safe body))) j))"
proof (cases w)
  case (Insert data userId now newId)
  with assms show ?thesis
    by (auto simp: createJob_def create_def Let_def split: option.splits if_splits)
next
  case (Transition_write jobId s T u n now)
  with assms show ?thesis
    by (auto simp: transitionStatus_write_def findOneAndUpdate_def split: option.splits if_splits)
next
  case (Assign_write jobId tid tech u n now)
  with assms show ?thesis
    by (auto simp: assignTechnician_write_def findOneAndUpdate_def split: option.splits if_splits)
next
  case (Reassign_save jobId snap tid e)
  with assms show ?thesis
    by (auto simp: reassign_save_def save_def split: option.splits if_splits)
next
  case (Edit_update jobId body)
  with assms show ?thesis
    by (auto simp: updateJobDetails_def findByIdAndUpdate_def Let_def safe_def
        split: option.splits if_splits)
next
  case (Delete_remove jobId t)
  with assms show ?thesis
    by (auto simp: delete_route_remove_def findByIdAndDelete_def split: option.splits if_splits)
qed

lemma commit_absent:
  assumes "jobs d i = None" and "tame i w"
  shows "jobs (commit w d) i = None"
proof (cases w)
  case (Insert data userId now newId)
  with assms show ?thesis
    by (auto simp: createJob_def create_def Let_def)
next
  case (Transition_write jobId s T u n now)
  with assms show ?thesis
    by (auto simp: transitionStatus_write_def findOneAndUpdate_def split: option.splits)
next
  case (Assign_write jobId tid tech u n now)
  with assms show ?thesis
    by (auto simp: assignTechnician_write_def findOneAndUpdate_def split: option.splits)
next
  case (Reassign_save jobId snap tid e)
  with assms show ?thesis
    by (auto simp: reassign_save_def save_def split: option.splits)
next
  case (Edit_update jobId body)
  with assms show ?thesis
    by (auto simp: updateJobDetails_def findByIdAndUpdate_def Let_def split: option.splits)
next
  case (Delete_remove jobId t)
  with assms show ?thesis
    by (auto simp: delete_route_remove_def findByIdAndDelete_def)
qed

section \<open>The frame of a detail edit\<close>

text \<open>
  What the strip achieves: a detail edit whose body is plain, whatever top-level keys
  it has, leaves \<^verbatim>\<open>status\<close>, \<^verbatim>\<open>statusHistory\<close>, \<^verbatim>\<open>assignedTechnician\<close> and
  \<^verbatim>\<open>createdBy\<close> of every job as they were, through the service function and through
  the PUT route.
\<close>

lemma guarded_apply_set:
  "f_status f = None \<Longrightarrow> f_statusHistory f = None \<Longrightarrow> f_assignedTechnician f = None \<Longrightarrow>
   f_createdBy f = None \<Longrightarrow> guarded (apply_set f j) = guarded j"
  by (simp add: guarded_def apply_set_def)

lemma plain_edit_frame:
  assumes "plain data"
  shows "map_option guarded (jobs (snd (exec (updateJobDetails jobId data) d)) i) =
           map_option guarded (jobs d i)"
    and "map_option guarded (jobs (snd (exec (put_route jobId data) d)) i) =
           map_option guarded (jobs d i)"
proof -
  from assms have p: "plain (safe data)" "b_pop data = None"
    by (simp_all add: safe_simps plain_def)
  show "map_option guarded (jobs (snd (exec (updateJobDetails jobId data) d)) i) =
           map_option guarded (jobs d i)"
    by (auto simp: updateJobDetails_jobs set_document_plain [OF p(1)] p(2) apply_pop_simps
        guarded_apply_set cast_fields_simps safe_simps)
  then show "map_option guarded (jobs (snd (exec (put_route jobId data) d)) i) =
           map_option guarded (jobs d i)"
    by (simp add: put_route_jobs)
qed

text \<open>
  Claim C9 says that \<open>updateJobDetails\<close> never changes \<^verbatim>\<open>status\<close>,
  \<^verbatim>\<open>statusHistory\<close>, \<^verbatim>\<open>assignedTechnician\<close> or \<^verbatim>\<open>createdBy\<close>, for every input.
  The function takes the four keys out of the top level of its input and hands the
  rest to \<^verbatim>\<open>findByIdAndUpdate\<close> as the update document, where a \<^verbatim>\<open>$set\<close> key
  is an operator. On the dispatched job of the sample store, assigned to technician 3
  and created by user 1, the body
  \<^verbatim>\<open>{ $set: { status: "BILLED", assignedTechnician: 4 } }\<close> goes through the strip
  untouched: the call succeeds and the job is BILLED and assigned to technician 4, through
  the service function and through the PUT route alike. With all four keys under
  \<^verbatim>\<open>$set\<close>, and a top-level \<^verbatim>\<open>status\<close> that the strip does remove, all four
  fields take the values of the body.
\<close>

theorem detail_edit_rewrites_guarded:
  "map_option (\<lambda>j. (status j, length (statusHistory j), assignedTechnician j, createdBy j))
     (jobs (stage 4) 10) = Some (DISPATCHED, 4, Some 3, 1) \<and>
   (let body = \<lparr>b_top = no_fields,
                 b_set = Some (no_fields\<lparr>f_status := Some BILLED,
                           f_assignedTechnician := Some 4\<rparr>),
                 b_pop = None\<rparr>
    in succeeded (fst (exec (updateJobDetails 10 body) (stage 4))) \<and>
       map_option (\<lambda>j. (status j, length (statusHistory j), assignedTechnician j, createdBy j))
         (jobs (snd (exec (updateJobDetails 10 body) (stage 4))) 10) =
         Some (BILLED, 4, Some 4, 1) \<and>
       succeeded (fst (exec (put_route 10 body) (stage 4))) \<and>
       map_option (\<lambda>j. (status j, length (statusHistory j), assignedTechnician j, createdBy j))
         (jobs (snd (exec (put_route 10 body) (stage 4))) 10) =
         Some (BILLED, 4, Some 4, 1)) \<and>
   (let body = \<lparr>b_top = no_fields\<lparr>f_status := Some COMPLETED\<rparr>,
                 b_set = Some (no_fields\<lparr>f_status := Some BILLED, f_statusHistory := Some [],
                           f_assignedTechnician := Some 4, f_createdBy := Some 2\<rparr>),
                 b_pop = None\<rparr>
    in succeeded (fst (exec (put_route 10 body) (stage 4))) \<and>
       map_option guarded (jobs (snd (exec (put_route 10 body) (stage 4))) 10) =
         Some (BILLED, [], Some 4, 2))"
  by code_simp

section \<open>The history ledger\<close>

lemma chained_snoc:
  "hs \<noteq> [] \<Longrightarrow> chained (hs @ [e]) \<longleftrightarrow> chained hs \<and> fromStatus e = Some (toStatus (last hs))"
  by (induction hs rule: chained.induct) auto

lemma chained_nth:
  "chained hs \<longleftrightarrow> (\<forall>i. 0 < i \<and> i < length hs \<longrightarrow> fromStatus (hs ! i) = Some (toStatus (hs ! (i - 1))))"
proof (induction hs rule: chained.induct)
  case (3 e e' es)
  show ?case
  proof
    assume a: "chained (e # e' # es)"
    show "\<forall>i. 0 < i \<and> i < length (e # e' # es) \<longrightarrow>
        fromStatus ((e # e' # es) ! i) = Some (toStatus ((e # e' # es) ! (i - 1)))"
    proof (intro allI impI)
      fix i assume i: "0 < i \<and> i < length (e # e' # es)"
      show "fromStatus ((e # e' # es) ! i) = Some (toStatus ((e # e' # es) ! (i - 1)))"
      proof (cases "i = 1")
        case True
        with a show ?thesis by simp
      next
        case False
        with i obtain k where k: "i = Suc k" "0 < k" "k < length (e' # es)"
          by (cases i) auto
        with a 3 have "fromStatus ((e' # es) ! k) = Some (toStatus ((e' # es) ! (k - 1)))"
          by simp
        with k show ?thesis by (cases k) auto
      qed
    qed
  next
    assume a: "\<forall>i. 0 < i \<and> i < length (e # e' # es) \<longrightarrow>
        fromStatus ((e # e' # es) ! i) = Some (toStatus ((e # e' # es) ! (i - 1)))"
    from a [rule_format, of 1] have h1: "fromStatus e' = Some (toStatus e)" by simp
    have "\<forall>i. 0 < i \<and> i < length (e' # es) \<longrightarrow>
        fromStatus ((e' # es) ! i) = Some (toStatus ((e' # es) ! (i - 1)))"
    proof (intro allI impI)
      fix i assume i: "0 < i \<and> i < length (e' # es)"
      with a [rule_format, of "Suc i"] show
        "fromStatus ((e' # es) ! i) = Some (toStatus ((e' # es) ! (i - 1)))"
        by (cases i) auto
    qed
    with 3 h1 show "chained (e # e' # es)" by simp
  qed
qed simp_all

lemma transitionStatus_Success:
  assumes "exec (transitionStatus jobId T u n now) d = (Success j', d')"
  shows "\<exists>j. jobs d jobId = Some j \<and>
           j' = apply_update (transition_set T now) (transition_entry (status j) T u n now) j \<and>
           jobs d' = (jobs d)(jobId \<mapsto> j')"
  using assms
  by (auto simp: transitionStatus_def transitionStatus_write_def findById_def
      findOneAndUpdate_def Let_def split: option.splits if_splits)

lemma ledger_transition:
  assumes "ledger j"
  shows "ledger (apply_update (transition_set T now) (transition_entry (status j) T u n now) j)"
  using assms
  by (simp add: ledger_def apply_update_status_history transition_set_simps
      chained_snoc transition_entry_def cast_entry_def)

lemma run_transitions_ledger:
  assumes "jobs d i = Some j" and "ledger j"
    and "run_transitions i reqs d = (outs, d')"
    and "list_all succeeded outs"
  shows "\<exists>j' es. jobs d' i = Some j' \<and> ledger j' \<and>
           statusHistory j' = statusHistory j @ es \<and> length es = length reqs"
  using assms
proof (induction reqs arbitrary: d j outs d')
  case Nil
  then show ?case by simp
next
  case (Cons req reqs)
  obtain T u n now where req: "req = (T, u, n, now)" by (cases req) auto
  obtain r d1 where ex: "exec (transitionStatus i T u n now) d = (r, d1)" by fastforce
  obtain outs1 d2 where run: "run_transitions i reqs d1 = (outs1, d2)" by fastforce
  from Cons.prems(3) req ex run have outs: "outs = r # outs1" and d': "d' = d2" by auto
  from Cons.prems(4) outs obtain j1 where r: "r = Success j1"
    by (cases r) (auto simp: succeeded_def)
  from transitionStatus_Success [OF ex [unfolded r]] Cons.prems(1)
  have j1: "j1 = apply_update (transition_set T now) (transition_entry (status j) T u n now) j"
    and d1: "jobs d1 i = Some j1" by auto
  from j1 Cons.prems(2) have l1: "ledger j1" by (simp add: ledger_transition)
  from Cons.prems(4) outs have "list_all succeeded outs1" by simp
  from Cons.IH [OF d1 l1 run this] obtain j' es where
    "jobs d2 i = Some j'" "ledger j'" "statusHistory j' = statusHistory j1 @ es"
    "length es = length reqs" by blast
  with j1 d' show ?case
    by (auto simp: apply_update_status_history transition_set_simps over_def)
qed

text \<open>
  No write step other than the update of a detail edit removes or reorders a record: the
  history before is a prefix of the history after. So does the update of a detail edit
  whose body is plain.
\<close>

lemma commit_extends_history:
  assumes "jobs d i = Some j" and "jobs (commit w d) i = Some j'"
    and "\<And>body. w = Edit_update i body \<Longrightarrow> plain body"
  shows "prefix (statusHistory j) (statusHistory j')"
proof -
  from commit_cases [OF assms(1,2)]
  consider "j' = j"
    | T u n now where "j' = apply_update (transition_set T now)
                              (transition_entry (status j) T u n now) j"
    | tid e where "j' = apply_update
                          (no_fields\<lparr>f_status := Some ASSIGNED, f_assignedTechnician := Some tid\<rparr>) e j"
    | snap tid e where "j' = apply_update (reassign_set snap tid) e j"
    | body where "w = Edit_update i body"
        "j' = apply_pop (b_pop body) (apply_set (cast_fields (set_document (safe body))) j)"
    by blast
  then show ?thesis
  proof cases
    case 1
    then show ?thesis by simp
  next
    case 2
    then show ?thesis by (simp add: apply_update_status_history transition_set_simps)
  next
    case 3
    then show ?thesis by (simp add: apply_update_status_history no_fields_def)
  next
    case 4
    then show ?thesis by (simp add: apply_update_status_history reassign_set_simps)
  next
    case 5
    from assms(3) [OF 5(1)] have p: "plain (safe body)" "b_pop body = None"
      by (simp_all add: safe_simps plain_def)
    with 5(2) show ?thesis
      by (simp add: set_document_plain [OF p(1)] apply_pop_simps apply_set_stamps
          cast_fields_simps safe_simps)
  qed
qed

lemma run_transitions_append:
  "run_transitions i (xs @ ys) d =
     (case run_transitions i xs d of (o1, d1) \<Rightarrow>
        (case run_transitions i ys d1 of (o2, d2) \<Rightarrow> (o1 @ o2, d2)))"
  by (induction xs arbitrary: d) (auto split: prod.splits)

lemma createJob_Success:
  assumes "exec (createJob data userId now newId) d0 = (Success j0, d1)"
  shows "jobs d1 newId = Some j0 \<and> ledger j0 \<and> length (statusHistory j0) = 1"
  using assms
  by (auto simp: createJob_def create_def new_document_def ledger_def creation_entry_def
      cast_fields_def cast_entry_def Let_def split: if_splits)

text \<open>
  The part of claim C3 about the life of a job under \<open>transitionStatus\<close>. Let
  \<open>createJob\<close> return a job, and let \<open>N\<close> calls of \<open>transitionStatus\<close> on this
  job follow, all successful. Then the job's history has \<open>N + 1\<close> records; its first
  record goes from \<^verbatim>\<open>null\<close> to TENTATIVE; every later record starts from the status
  the record before it ended in; the job's status is the one the last record ends in;
  and after the first \<open>k\<close> calls the history was the first \<open>k + 1\<close> records of the
  final one, so no call removed or reordered a record.
\<close>

lemma ledger_after_transitions:
  assumes "exec (createJob data userId now newId) d0 = (Success j0, d1)"
    and "run_transitions newId reqs d1 = (outs, d2)"
    and "list_all succeeded outs"
  shows "\<exists>j. jobs d2 newId = Some j \<and>
           length (statusHistory j) = length reqs + 1 \<and>
           fromStatus (statusHistory j ! 0) = None \<and>
           toStatus (statusHistory j ! 0) = TENTATIVE \<and>
           (\<forall>i. 0 < i \<and> i < length (statusHistory j) \<longrightarrow>
              fromStatus (statusHistory j ! i) = Some (toStatus (statusHistory j ! (i - 1)))) \<and>
           status j = toStatus (last (statusHistory j)) \<and>
           (\<forall>k\<le>length reqs.
              map_option statusHistory
                (jobs (snd (run_transitions newId (take k reqs) d1)) newId) =
              Some (take (k + 1) (statusHistory j)))"
proof -
  from createJob_Success [OF assms(1)]
  have j0: "jobs d1 newId = Some j0" "ledger j0" "length (statusHistory j0) = 1" by auto
  from run_transitions_ledger [OF j0(1) j0(2) assms(2) assms(3)]
  obtain j es where j: "jobs d2 newId = Some j" "ledger j"
    "statusHistory j = statusHistory j0 @ es" "length es = length reqs" by blast
  have len: "length (statusHistory j) = length reqs + 1"
    using j j0 by simp
  have first: "fromStatus (statusHistory j ! 0) = None" "toStatus (statusHistory j ! 0) = TENTATIVE"
    using j(2) by (auto simp: ledger_def hd_conv_nth)
  have chain: "\<forall>i. 0 < i \<and> i < length (statusHistory j) \<longrightarrow>
      fromStatus (statusHistory j ! i) = Some (toStatus (statusHistory j ! (i - 1)))"
    using j(2) by (simp add: ledger_def chained_nth)
  have last: "status j = toStatus (last (statusHistory j))"
    using j(2) by (simp add: ledger_def)
  have mid: "\<forall>k\<le>length reqs.
      map_option statusHistory (jobs (snd (run_transitions newId (take k reqs) d1)) newId) =
      Some (take (k + 1) (statusHistory j))"
  proof (intro allI impI)
    fix k assume k: "k \<le> length reqs"
    obtain o1 dk where r1: "run_transitions newId (take k reqs) d1 = (o1, dk)" by fastforce
    obtain o2 dl where r2: "run_transitions newId (drop k reqs) dk = (o2, dl)" by fastforce
    have "run_transitions newId reqs d1 = (o1 @ o2, dl)"
      using run_transitions_append [of newId "take k reqs" "drop k reqs" d1]
      by (simp add: r1 r2)
    with assms(2) have eq: "outs = o1 @ o2" "d2 = dl" by simp_all
    with assms(3) have s1: "list_all succeeded o1" and s2: "list_all succeeded o2" by simp_all
    from run_transitions_ledger [OF j0(1) j0(2) r1 s1]
    obtain jk es1 where jk: "jobs dk newId = Some jk" "ledger jk"
      "statusHistory jk = statusHistory j0 @ es1" "length es1 = length (take k reqs)" by blast
    from run_transitions_ledger [OF jk(1) jk(2) r2 s2] eq(2) j(1)
    obtain es2 where "statusHistory j = statusHistory jk @ es2" by auto
    moreover have "length (statusHistory jk) = k + 1"
      using jk(3,4) j0(3) k by simp
    ultimately have "take (k + 1) (statusHistory j) = statusHistory jk" by simp
    with r1 jk(1) show
      "map_option statusHistory (jobs (snd (run_transitions newId (take k reqs) d1)) newId) =
       Some (take (k + 1) (statusHistory j))" by simp
  qed
  from j(1) len first chain last mid show ?thesis by blast
qed

text \<open>
  Claim C3 ends: no operation ever truncates or reorders the history. A detail edit
  does. \<open>updateJobDetails\<close> takes \<^verbatim>\<open>statusHistory\<close> out of the top level of its
  input only, and a \<^verbatim>\<open>$pop\<close> key reaches \<^verbatim>\<open>findByIdAndUpdate\<close> as an operator.
  On the dispatched job of the sample store, whose history has four records ending in
  DISPATCHED, the body \<^verbatim>\<open>{ $pop: { statusHistory: 1 } }\<close> sent to the PUT route
  succeeds and removes the last record: the history is no longer an extension of the
  old one, and the job's status is no longer the one its last record ends in. The body
  \<^verbatim>\<open>{ $pop: { statusHistory: -1 } }\<close> removes the creation record instead, and the
  history starts with a record from TENTATIVE.
\<close>

theorem detail_edit_pops_history:
  "map_option (\<lambda>j. (status j, map toStatus (statusHistory j))) (jobs (stage 4) 10) =
     Some (DISPATCHED, [TENTATIVE, CONFIRMED, ASSIGNED, DISPATCHED]) \<and>
   ledger (the (jobs (stage 4) 10)) \<and>
   (let body = \<lparr>b_top = no_fields, b_set = None, b_pop = Some Pop_last\<rparr>
    in succeeded (fst (exec (put_route 10 body) (stage 4))) \<and>
       map_option (\<lambda>j. (status j, map toStatus (statusHistory j)))
         (jobs (snd (exec (put_route 10 body) (stage 4))) 10) =
         Some (DISPATCHED, [TENTATIVE, CONFIRMED, ASSIGNED]) \<and>
       \<not> prefix (statusHistory (the (jobs (stage 4) 10)))
           (statusHistory (the (jobs (snd (exec (put_route 10 body) (stage 4))) 10))) \<and>
       \<not> ledger (the (jobs (snd (exec (put_route 10 body) (stage 4))) 10))) \<and>
   (let body = \<lparr>b_top = no_fields, b_set = None, b_pop = Some Pop_first\<rparr>
    in succeeded (fst (exec (put_route 10 body) (stage 4))) \<and>
       map_option (\<lambda>j. map fromStatus (statusHistory j))
         (jobs (snd (exec (put_route 10 body) (stage 4))) 10) =
         Some [Some TENTATIVE, Some CONFIRMED, Some ASSIGNED] \<and>
       \<not> ledger (the (jobs (snd (exec (put_route 10 body) (stage 4))) 10)))"
  by code_simp

section \<open>Every interleaving is a run of write steps\<close>

lemma step_map_prog:
  "step (map_prog g p) d = (map_prog g (fst (step p d)), snd (step p d))"
  by (cases p) (simp_all add: map_prod_def split_beta)

lemma step_forget: "step (forget p) d = (forget (fst (step p d)), snd (step p d))"
  by (simp add: forget_def step_map_prog)

lemma forget_Return [simp]: "forget (Return r) = Return ()"
  by (simp add: forget_def)

lemma forget_map_prog [simp]: "forget (map_prog g p) = forget p"
  by (simp add: forget_def prog.map_comp comp_def)

text \<open>
  One step of a request in flight leaves a request in flight, and either leaves the
  store as it was or is one of the write steps the handlers issue.
\<close>

lemma in_flight_step:
  assumes "in_flight p"
  shows "in_flight (fst (step p d)) \<and>
         (snd (step p d) = d \<or> (\<exists>w. issued w \<and> snd (step p d) = commit w d))"
  using assms
proof (cases rule: in_flight.cases)
  case (at_start r)
  show ?thesis
  proof (cases r)
    case (Create data userId now newId)
    have "issued (Insert data userId now newId)" by simp
    moreover have "snd (step p d) = commit (Insert data userId now newId) d"
      by (simp add: at_start Create step_forget)
    moreover have "in_flight (fst (step p d))"
      by (auto simp: at_start Create step_forget createJob_def split: prod.splits sum.splits
          intro: in_flight.at_end)
    ultimately show ?thesis by blast
  next
    case (Transition jobId newStatus user notes' now)
    then show ?thesis
      by (auto simp: at_start step_forget transitionStatus_def Let_def split: option.splits
          intro: in_flight.at_end in_flight.at_transition_write)
  next
    case (Assign jobId technicianId user notes' now)
    then show ?thesis
      by (auto simp: at_start step_forget assignTechnician_def split: option.splits
          intro: in_flight.at_end in_flight.at_assign_write)
  next
    case (Reassign jobId technicianId user notes' now)
    then show ?thesis
      by (auto simp: at_start step_forget reassign_route_def Let_def split: option.splits
          intro: in_flight.at_end in_flight.at_reassign_lookup)
  next
    case (Edit jobId body)
    then show ?thesis
      by (auto simp: at_start step_forget put_route_def Let_def
          intro: in_flight.at_end in_flight.at_edit_update)
  next
    case (Delete jobId)
    then show ?thesis
      by (auto simp: at_start step_forget delete_route_def split: option.splits
          intro: in_flight.at_end in_flight.at_delete_remove)
  qed
next
  case (at_transition_write currentStatus newStatus user jobId notes' now)
  then have "issued (Transition_write jobId currentStatus newStatus user notes' now)" by simp
  moreover have "snd (step p d) =
      commit (Transition_write jobId currentStatus newStatus user notes' now) d"
    by (simp add: at_transition_write step_forget)
  moreover have "in_flight (fst (step p d))"
    by (auto simp: at_transition_write step_forget transitionStatus_write_def
        split: prod.splits option.splits intro: in_flight.at_end)
  ultimately show ?thesis by blast
next
  case (at_assign_write jobId technicianId technician user notes' now)
  have "issued (Assign_write jobId technicianId technician user notes' now)" by simp
  moreover have "snd (step p d) =
      commit (Assign_write jobId technicianId technician user notes' now) d"
    by (simp add: at_assign_write step_forget)
  moreover have "in_flight (fst (step p d))"
    by (auto simp: at_assign_write step_forget assignTechnician_write_def
        split: prod.splits option.splits intro: in_flight.at_end in_flight.at_assign_diagnose)
  ultimately show ?thesis by blast
next
  case (at_assign_diagnose jobId)
  then show ?thesis
    by (auto simp: step_forget assignTechnician_diagnose_def split: option.splits
        intro: in_flight.at_end)
next
  case (at_reassign_lookup job jobId technicianId user notes' oldTechName now)
  then show ?thesis
    by (auto simp: step_forget reassign_lookup_def Let_def intro: in_flight.at_reassign_save)
next
  case (at_reassign_save job jobId technicianId entry)
  then have "issued (Reassign_save jobId job technicianId entry)" by simp
  moreover have "snd (step p d) = commit (Reassign_save jobId job technicianId entry) d"
    by (simp add: at_reassign_save step_forget)
  moreover have "in_flight (fst (step p d))"
    by (auto simp: at_reassign_save step_forget reassign_save_def
        split: prod.splits sum.splits intro: in_flight.at_end)
  ultimately show ?thesis by blast
next
  case (at_delete_remove jobId jobTitle)
  have "issued (Delete_remove jobId jobTitle)" by simp
  moreover have "snd (step p d) = commit (Delete_remove jobId jobTitle) d"
    by (simp add: at_delete_remove step_forget)
  moreover have "in_flight (fst (step p d))"
    by (auto simp: at_delete_remove step_forget delete_route_remove_def intro: in_flight.at_end)
  ultimately show ?thesis by blast
next
  case (at_edit_update jobId body)
  have "issued (Edit_update jobId body)" by simp
  moreover have "snd (step p d) = commit (Edit_update jobId body) d"
    by (simp add: at_edit_update step_forget)
  moreover have "in_flight (fst (step p d))"
    by (auto simp: at_edit_update step_forget updateJobDetails_def Let_def
        split: prod.splits sum.splits option.splits intro: in_flight.at_end)
  ultimately show ?thesis by blast
next
  case at_end
  then show ?thesis by (simp add: in_flight.at_end)
qed

text \<open>
  Whatever requests are in flight and in whatever order they take their steps, the store
  at the end is the store at the start after a run of write steps the handlers issue,
  in the order the steps were taken.
\<close>

lemma interleaving_commits:
  assumes "list_all in_flight ps"
  shows "\<exists>ws. list_all issued ws \<and> snd (run_schedule sched (ps, d)) = fold commit ws d \<and>
              list_all in_flight (fst (run_schedule sched (ps, d)))"
  using assms
proof (induction sched arbitrary: ps d)
  case Nil
  have "list_all issued [] \<and> snd (run_schedule [] (ps, d)) = fold commit [] d \<and>
        list_all in_flight (fst (run_schedule [] (ps, d)))"
    using Nil by (simp add: run_schedule_def)
  then show ?case by blast
next
  case (Cons i sched)
  show ?case
  proof (cases "i < length ps")
    case False
    then have "run_schedule (i # sched) (ps, d) = run_schedule sched (ps, d)"
      by (simp add: run_schedule_def)
    with Cons.IH [OF Cons.prems] show ?thesis by simp
  next
    case True
    let ?p' = "fst (step (ps ! i) d)" and ?d' = "snd (step (ps ! i) d)"
    from Cons.prems True have "in_flight (ps ! i)" by (simp add: list_all_length)
    from in_flight_step [OF this, of d]
    have p': "in_flight ?p'"
      and d': "?d' = d \<or> (\<exists>w. issued w \<and> ?d' = commit w d)" by simp_all
    from Cons.prems p' True have "list_all in_flight (ps[i := ?p'])"
      by (auto simp: list_all_length nth_list_update)
    from Cons.IH [OF this, of ?d'] obtain ws where
      ws: "list_all issued ws" "snd (run_schedule sched (ps[i := ?p'], ?d')) = fold commit ws ?d'"
        "list_all in_flight (fst (run_schedule sched (ps[i := ?p'], ?d')))" by blast
    have run: "run_schedule (i # sched) (ps, d) = run_schedule sched (ps[i := ?p'], ?d')"
      using True by (simp add: run_schedule_def split_beta)
    from d' show ?thesis
    proof
      assume "?d' = d"
      with ws run have "list_all issued ws \<and>
          snd (run_schedule (i # sched) (ps, d)) = fold commit ws d \<and>
          list_all in_flight (fst (run_schedule (i # sched) (ps, d)))" by simp
      then show ?thesis by blast
    next
      assume "\<exists>w. issued w \<and> ?d' = commit w d"
      then obtain w where w: "issued w" "?d' = commit w d" by blast
      with ws run have "list_all issued (w # ws) \<and>
          snd (run_schedule (i # sched) (ps, d)) = fold commit (w # ws) d \<and>
          list_all in_flight (fst (run_schedule (i # sched) (ps, d)))" by simp
      then show ?thesis by blast
    qed
  qed
qed

lemma requests_commits:
  "\<exists>ws. list_all issued ws \<and>
        snd (run_schedule sched (map program requests, d)) = fold commit ws d"
proof -
  have "list_all in_flight (map program requests)"
    by (simp add: list_all_iff in_flight.at_start)
  from interleaving_commits [OF this, of sched d] show ?thesis by blast
qed

text \<open>
  A request run alone takes at most one write step, and the save of a reassignment run
  alone is fresh: a sequential history of requests that are polite to a job is a regular
  run of write steps for it.
\<close>

lemma exec_step: "exec p d = exec (fst (step p d)) (snd (step p d))"
  by (cases p) (simp_all add: split_beta)

lemma regular_append:
  "regular i (xs @ ys) d \<longleftrightarrow> regular i xs d \<and> regular i ys (fold commit xs d)"
  by (induction xs arbitrary: d) auto

lemma handle_regular:
  assumes "polite i r"
  shows "\<exists>ws. regular i ws d \<and> fold commit ws d = handle r d"
proof (cases r)
  case (Create data userId now newId)
  have "handle r d = commit (Insert data userId now newId) d"
    by (simp add: Create createJob_def split: prod.splits sum.splits)
  moreover have "regular i [Insert data userId now newId] d"
    using assms Create by simp
  ultimately show ?thesis
    by (intro exI [of _ "[Insert data userId now newId]"]) simp
next
  case (Transition jobId T u n now)
  show ?thesis
  proof (cases "\<exists>j. jobs d jobId = Some j \<and> admissible j T u n")
    case True
    then obtain j where j: "jobs d jobId = Some j" "admissible j T u n" by blast
    let ?w = "Transition_write jobId (status j) T u n now"
    have "handle r d = snd (exec (transitionStatus_write jobId (status j) T u n now) d)"
      using exec_step [of "transitionStatus jobId T u n now" d] step_transitionStatus [OF j]
      by (simp add: Transition)
    also have "\<dots> = commit ?w d"
      by (simp add: transitionStatus_write_def split: prod.splits option.splits)
    finally have "handle r d = commit ?w d" .
    moreover have "regular i [?w] d"
      using j(2) by (simp add: admissible_def)
    ultimately show ?thesis
      by (intro exI [of _ "[?w]"]) simp
  next
    case False
    then have "handle r d = d"
      by (auto simp: Transition transitionStatus_def findById_def admissible_def Let_def
          split: option.splits)
    then show ?thesis
      by (intro exI [of _ "[]"]) simp
  qed
next
  case (Assign jobId tid u n now)
  show ?thesis
  proof (cases "\<exists>tech. users d tid = Some tech \<and> user_role tech = TECHNICIAN \<and>
      validateTransition CONFIRMED ASSIGNED (user_role u) = None")
    case True
    then obtain tech where t: "users d tid = Some tech" "user_role tech = TECHNICIAN"
      "validateTransition CONFIRMED ASSIGNED (user_role u) = None" by blast
    let ?w = "Assign_write jobId tid tech u n now"
    have "handle r d = commit ?w d"
      using t
      by (auto simp: Assign assignTechnician_def assignTechnician_write_def
          assignTechnician_diagnose_def User_findById_def findById_def
          split: prod.splits option.splits)
    then show ?thesis
      by (intro exI [of _ "[?w]"]) simp
  next
    case False
    then have "handle r d = d"
      by (auto simp: Assign assignTechnician_def User_findById_def split: option.splits)
    then show ?thesis
      by (intro exI [of _ "[]"]) simp
  qed
next
  case (Reassign jobId tid u n now)
  show ?thesis
  proof (cases "\<exists>j. jobs d jobId = Some j \<and> status j \<in> set reassignableStatuses")
    case True
    then obtain j where j: "jobs d jobId = Some j" "status j \<in> set reassignableStatuses"
      by blast
    let ?e = "reassign_entry (status j) (user_id u) n
                (name_or (case assignedTechnician j of None \<Rightarrow> None | Some t \<Rightarrow> users d t)
                   (lit ''previous technician''))
                (name_or (users d tid) (lit ''new technician'')) now"
    let ?w = "Reassign_save jobId j tid ?e"
    have "handle r d = commit ?w d"
      using j
      by (simp add: Reassign reassign_route_def reassign_lookup_def reassign_save_def save_def
          findById_def User_findById_def Let_def cong: option.case_cong)
    moreover have "regular i [?w] d"
      using j by auto
    ultimately show ?thesis
      by (intro exI [of _ "[?w]"]) simp
  next
    case False
    then have "handle r d = d"
      by (auto simp: Reassign reassign_route_def findById_def split: option.splits)
    then show ?thesis
      by (intro exI [of _ "[]"]) simp
  qed
next
  case (Edit jobId body)
  show ?thesis
  proof (cases "map_option status (jobs d jobId) = Some BILLED")
    case True
    then have "handle r d = d"
      by (auto simp: Edit put_route_def findById_def)
    then show ?thesis
      by (intro exI [of _ "[]"]) simp
  next
    case False
    let ?w = "Edit_update jobId body"
    have "handle r d = snd (exec (updateJobDetails jobId body) d)"
      using False
      by (auto simp: Edit put_route_def findById_def exec_map_prog split_beta Let_def)
    also have "\<dots> = commit ?w d"
      by (simp add: updateJobDetails_def Let_def split: prod.splits sum.splits option.splits)
    finally have "handle r d = commit ?w d" .
    moreover have "regular i [?w] d"
      using assms Edit by simp
    ultimately show ?thesis
      by (intro exI [of _ "[?w]"]) simp
  qed
next
  case (Delete jobId)
  show ?thesis
  proof (cases "\<exists>j. jobs d jobId = Some j \<and> status j \<noteq> BILLED")
    case True
    then obtain j where j: "jobs d jobId = Some j" "status j \<noteq> BILLED" by blast
    let ?w = "Delete_remove jobId (title j)"
    have "handle r d = commit ?w d"
      using j by (simp add: Delete delete_route_def delete_route_remove_def findById_def)
    then show ?thesis
      by (intro exI [of _ "[?w]"]) simp
  next
    case False
    then have "handle r d = d"
      by (auto simp: Delete delete_route_def findById_def split: option.splits)
    then show ?thesis
      by (intro exI [of _ "[]"]) simp
  qed
qed

lemma history_regular:
  assumes "list_all (polite i) rs"
  shows "\<exists>ws. regular i ws d \<and> fold commit ws d = history rs d"
  using assms
proof (induction rs arbitrary: d)
  case Nil
  have "regular i [] d \<and> fold commit [] d = history [] d" by (simp add: history_def)
  then show ?case by blast
next
  case (Cons r rs)
  then have r: "polite i r" and rs: "list_all (polite i) rs" by simp_all
  from handle_regular [OF r, of d] obtain w1 where
    w1: "regular i w1 d" "fold commit w1 d = handle r d" by blast
  from Cons.IH [OF rs, of "handle r d"] obtain w2 where
    w2: "regular i w2 (handle r d)" "fold commit w2 (handle r d) = history rs (handle r d)"
    by blast
  have "regular i (w1 @ w2) d \<and> fold commit (w1 @ w2) d = history (r # rs) d"
    using w1 w2 by (simp add: regular_append history_def)
  then show ?case by blast
qed

section \<open>The completion and billing stamps\<close>

lemma validateTransition_None_cases:
  assumes "validateTransition s t r = None"
  shows "(s, t) \<in> {(TENTATIVE, CONFIRMED), (CONFIRMED, ASSIGNED), (ASSIGNED, DISPATCHED),
                    (DISPATCHED, IN_PROGRESS), (IN_PROGRESS, COMPLETED), (COMPLETED, BILLED)}"
  using assms unfolding validateTransition_None_iff spec_allows_def spec_table_def
  by auto

text \<open>
  The job across one write step that the handlers issue and that is tame for it: the
  stamps are as they were, unless the step is the conditional update of a transition
  that lands.
\<close>

lemma commit_tame_cases:
  assumes "jobs d i = Some j" and "jobs (commit w d) i = Some j'"
    and "issued w" and "tame i w"
  shows "j' = j \<or>
    (\<exists>T u n now. w = Transition_write i (status j) T u n now \<and>
       validateTransition (status j) T (user_role u) = None \<and> status j' = T \<and>
       completedAt j' = (if T = COMPLETED then Some now else completedAt j) \<and>
       billedAt j' = (if T = BILLED then Some now else billedAt j)) \<or>
    (status j = CONFIRMED \<and> status j' = ASSIGNED \<and>
       completedAt j' = completedAt j \<and> billedAt j' = billedAt j) \<or>
    (\<exists>snap tid e. w = Reassign_save i snap tid e \<and> status snap \<in> set reassignableStatuses \<and>
       status j' = (if status snap = ASSIGNED then status j else ASSIGNED) \<and>
       completedAt j' = completedAt j \<and> billedAt j' = billedAt j) \<or>
    (status j' = status j \<and> completedAt j' = completedAt j \<and> billedAt j' = billedAt j)"
proof -
  from commit_cases [OF assms(1,2)]
  consider "j' = j"
    | T u n now where "w = Transition_write i (status j) T u n now"
        "j' = apply_update (transition_set T now) (transition_entry (status j) T u n now) j"
    | tid tech u n now where "status j = CONFIRMED"
        "j' = apply_update
                (no_fields\<lparr>f_status := Some ASSIGNED, f_assignedTechnician := Some tid\<rparr>)
                (assignment_entry tech u n now) j"
    | snap tid e where "w = Reassign_save i snap tid e"
        "j' = apply_update (reassign_set snap tid) e j"
    | body where "w = Edit_update i body"
        "j' = apply_pop (b_pop body) (apply_set (cast_fields (set_document (safe body))) j)"
    by blast
  then show ?thesis
  proof cases
    case 1
    then show ?thesis by simp
  next
    case 2
    with assms(3) show ?thesis
      by (simp add: apply_update_status_history apply_update_stamps transition_set_simps)
  next
    case 3
    then show ?thesis
      by (simp add: apply_update_status_history apply_update_stamps no_fields_def)
  next
    case 4
    with assms(3) show ?thesis
      by (simp add: apply_update_status_history apply_update_stamps reassign_set_simps)
  next
    case 5
    with assms(4) have p: "plain (safe body)" "b_pop body = None"
      "f_completedAt (b_top body) = None" "f_billedAt (b_top body) = None"
      by (simp_all add: safe_simps plain_def)
    with 5(2) show ?thesis
      by (simp add: set_document_plain [OF p(1)] apply_pop_simps apply_set_stamps
          cast_fields_simps safe_simps)
  qed
qed

lemma commit_completedAt:
  assumes "jobs d i = Some j" and "jobs (commit w d) i = Some j'"
    and "issued w" and "tame i w"
  shows "completedAt j' = completedAt j \<or>
         (\<exists>u n now. w = Transition_write i IN_PROGRESS COMPLETED u n now \<and>
            status j = IN_PROGRESS \<and> status j' = COMPLETED \<and> completedAt j' = Some now)"
  using commit_tame_cases [OF assms]
  by (auto dest!: validateTransition_None_cases)

lemma commit_billedAt:
  assumes "jobs d i = Some j" and "jobs (commit w d) i = Some j'"
    and "issued w" and "tame i w"
  shows "billedAt j' = billedAt j \<or>
         (\<exists>u n now. w = Transition_write i COMPLETED BILLED u n now \<and>
            status j = COMPLETED \<and> status j' = BILLED \<and> billedAt j' = Some now)"
  using commit_tame_cases [OF assms]
  by (auto dest!: validateTransition_None_cases)

text \<open>
  A completed job stays completed or billed, and a billed job stays billed, across a
  write step that is also fresh.
\<close>

lemma commit_settled:
  assumes "jobs d i = Some j" and "jobs (commit w d) i = Some j'"
    and "issued w" and "tame i w" and "fresh i w d"
  shows "(status j = COMPLETED \<or> status j = BILLED \<longrightarrow>
            status j' = COMPLETED \<or> status j' = BILLED) \<and>
         (status j = BILLED \<longrightarrow> status j' = BILLED)"
  using commit_tame_cases [OF assms(1-4)] assms(1,5)
  by (auto simp: reassignableStatuses_def dest!: validateTransition_None_cases)

lemma commit_stamped_ok:
  assumes "jobs d i = Some j" and "jobs (commit w d) i = Some j'"
    and "issued w" and "tame i w" and "fresh i w d" and "stamped_ok j"
  shows "stamped_ok j'"
  using commit_completedAt [OF assms(1-4)] commit_billedAt [OF assms(1-4)]
    commit_settled [OF assms(1-5)] assms(6)
  unfolding stamped_ok_def by auto

lemma commit_stamps_inv:
  assumes "stamps_inv d i" and "issued w" and "tame i w" and "fresh i w d"
  shows "stamps_inv (commit w d) i"
proof (cases "jobs d i")
  case None
  with commit_absent [OF None assms(3)] show ?thesis by (simp add: stamps_inv_def)
next
  case (Some j)
  show ?thesis
  proof (cases "jobs (commit w d) i")
    case None
    then show ?thesis by (simp add: stamps_inv_def)
  next
    case (Some j')
    with commit_stamped_ok [OF \<open>jobs d i = Some j\<close> Some assms(2-4)] assms(1)
      \<open>jobs d i = Some j\<close>
    show ?thesis by (simp add: stamps_inv_def)
  qed
qed

lemma regular_stamps_inv:
  "regular i ws d \<Longrightarrow> stamps_inv d i \<Longrightarrow> stamps_inv (fold commit ws d) i"
  by (induction ws arbitrary: d) (simp_all add: commit_stamps_inv)

lemma writes_completedAt_bound:
  assumes "regular i ws d"
  shows "writes completedAt i ws d \<le>
           (case jobs d i of None \<Rightarrow> 0
            | Some j \<Rightarrow> if status j = COMPLETED \<or> status j = BILLED then 0 else 1)"
  using assms
proof (induction ws arbitrary: d)
  case Nil
  show ?case by simp
next
  case (Cons w ws)
  then have w: "issued w" "tame i w" "fresh i w d"
    and ws: "regular i ws (commit w d)" by simp_all
  note IH = Cons.IH [OF ws]
  show ?case
  proof (cases "jobs d i")
    case None
    with commit_absent [OF None w(2)] IH show ?thesis by simp
  next
    case (Some j)
    show ?thesis
    proof (cases "jobs (commit w d) i")
      case None
      with IH Some show ?thesis by simp
    next
      case (Some j')
      from commit_completedAt [OF \<open>jobs d i = Some j\<close> Some w(1,2)]
        commit_settled [OF \<open>jobs d i = Some j\<close> Some w] IH Some \<open>jobs d i = Some j\<close>
      show ?thesis by (auto split: if_splits)
    qed
  qed
qed

lemma writes_billedAt_bound:
  assumes "regular i ws d"
  shows "writes billedAt i ws d \<le>
           (case jobs d i of None \<Rightarrow> 0 | Some j \<Rightarrow> if status j = BILLED then 0 else 1)"
  using assms
proof (induction ws arbitrary: d)
  case Nil
  show ?case by simp
next
  case (Cons w ws)
  then have w: "issued w" "tame i w" "fresh i w d"
    and ws: "regular i ws (commit w d)" by simp_all
  note IH = Cons.IH [OF ws]
  show ?case
  proof (cases "jobs d i")
    case None
    with commit_absent [OF None w(2)] IH show ?thesis by simp
  next
    case (Some j)
    show ?thesis
    proof (cases "jobs (commit w d) i")
      case None
      with IH Some show ?thesis by simp
    next
      case (Some j')
      from commit_billedAt [OF \<open>jobs d i = Some j\<close> Some w(1,2)]
        commit_settled [OF \<open>jobs d i = Some j\<close> Some w] IH Some \<open>jobs d i = Some j\<close>
      show ?thesis by (auto split: if_splits)
    qed
  qed
qed

text \<open>
  A landing update to COMPLETED finds the job IN_PROGRESS and leaves it COMPLETED; one to
  BILLED finds it COMPLETED and leaves it BILLED.
\<close>

lemma lands_status:
  assumes "lands T i w d" and "issued w" and "T = COMPLETED \<or> T = BILLED"
  shows "\<exists>j j'. jobs d i = Some j \<and> jobs (commit w d) i = Some j' \<and> status j' = T \<and>
           status j = (if T = COMPLETED then IN_PROGRESS else COMPLETED)"
proof (cases w)
  case (Transition_write jobId s T' u n now)
  with assms(1) obtain j where j: "jobId = i" "T' = T" "jobs d i = Some j" "status j = s"
    by auto
  from assms(2) Transition_write j have "validateTransition (status j) T (user_role u) = None"
    by simp
  from validateTransition_None_cases [OF this] assms(3)
  have "status j = (if T = COMPLETED then IN_PROGRESS else COMPLETED)" by auto
  moreover have "jobs (commit w d) i =
      Some (apply_update (transition_set T now) (transition_entry s T u n now) j)"
    using Transition_write j
    by (simp add: transitionStatus_write_def findOneAndUpdate_def)
  ultimately show ?thesis
    using j by (simp add: apply_update_status_history transition_set_simps)
qed (use assms(1) in simp_all)

lemma landings_COMPLETED_bound:
  assumes "regular i ws d"
  shows "landings COMPLETED i ws d \<le>
           (case jobs d i of None \<Rightarrow> 0
            | Some j \<Rightarrow> if status j = COMPLETED \<or> status j = BILLED then 0 else 1)"
  using assms
proof (induction ws arbitrary: d)
  case Nil
  show ?case by simp
next
  case (Cons w ws)
  then have w: "issued w" "tame i w" "fresh i w d"
    and ws: "regular i ws (commit w d)" by simp_all
  note IH = Cons.IH [OF ws]
  show ?case
  proof (cases "lands COMPLETED i w d")
    case True
    from lands_status [OF True w(1)] obtain j j' where
      "jobs d i = Some j" "jobs (commit w d) i = Some j'" "status j' = COMPLETED"
      "status j = IN_PROGRESS" by auto
    with IH True show ?thesis by simp
  next
    case False
    show ?thesis
    proof (cases "jobs d i")
      case None
      with commit_absent [OF None w(2)] IH False show ?thesis by simp
    next
      case (Some j)
      show ?thesis
      proof (cases "jobs (commit w d) i")
        case None
        with IH Some False show ?thesis by simp
      next
        case (Some j')
        from commit_settled [OF \<open>jobs d i = Some j\<close> Some w] IH Some False
          \<open>jobs d i = Some j\<close>
        show ?thesis by (auto split: if_splits)
      qed
    qed
  qed
qed

lemma landings_BILLED_bound:
  assumes "regular i ws d"
  shows "landings BILLED i ws d \<le>
           (case jobs d i of None \<Rightarrow> 0 | Some j \<Rightarrow> if status j = BILLED then 0 else 1)"
  using assms
proof (induction ws arbitrary: d)
  case Nil
  show ?case by simp
next
  case (Cons w ws)
  then have w: "issued w" "tame i w" "fresh i w d"
    and ws: "regular i ws (commit w d)" by simp_all
  note IH = Cons.IH [OF ws]
  show ?case
  proof (cases "lands BILLED i w d")
    case True
    from lands_status [OF True w(1)] obtain j j' where
      "jobs d i = Some j" "jobs (commit w d) i = Some j'" "status j' = BILLED"
      "status j = COMPLETED" by auto
    with IH True show ?thesis by simp
  next
    case False
    show ?thesis
    proof (cases "jobs d i")
      case None
      with commit_absent [OF None w(2)] IH False show ?thesis by simp
    next
      case (Some j)
      show ?thesis
      proof (cases "jobs (commit w d) i")
        case None
        with IH Some False show ?thesis by simp
      next
        case (Some j')
        from commit_settled [OF \<open>jobs d i = Some j\<close> Some w] IH Some False
          \<open>jobs d i = Some j\<close>
        show ?thesis by (auto split: if_splits)
      qed
    qed
  qed
qed

lemma createJob_stamps:
  assumes "exec (createJob data userId now newId) d0 = (Success j0, d1)"
  shows "jobs d1 newId = Some j0 \<and> status j0 = TENTATIVE \<and> completedAt j0 = None \<and>
         billedAt j0 = None"
  using assms
  by (auto simp: createJob_def create_def new_document_def cast_fields_def Let_def
      split: if_splits)

lemma completion_lands:
  assumes "jobs d i = Some j" and "status j = s"
  shows "map_option completedAt
           (jobs (commit (Transition_write i s COMPLETED u n now) d) i) = Some (Some now)"
    and "map_option status
           (jobs (commit (Transition_write i s COMPLETED u n now) d) i) = Some COMPLETED"
  using assms
  by (simp_all add: transitionStatus_write_def findOneAndUpdate_def apply_update_stamps
      apply_update_status_history transition_set_simps)

lemma billing_lands:
  assumes "jobs d i = Some j" and "status j = s"
  shows "map_option billedAt
           (jobs (commit (Transition_write i s BILLED u n now) d) i) = Some (Some now)"
    and "map_option status
           (jobs (commit (Transition_write i s BILLED u n now) d) i) = Some BILLED"
  using assms
  by (simp_all add: transitionStatus_write_def findOneAndUpdate_def apply_update_stamps
      apply_update_status_history transition_set_simps)

lemma edit_stamps:
  assumes "jobs d i = Some j" and "plain b" and "update_valid (cast_fields (b_top (safe b)))"
  shows "map_option completedAt (jobs (commit (Edit_update i b) d) i) =
           Some (over_opt (f_completedAt (b_top b)) (completedAt j))"
    and "map_option billedAt (jobs (commit (Edit_update i b) d) i) =
           Some (over_opt (f_billedAt (b_top b)) (billedAt j))"
proof -
  from assms(2) have p: "plain (safe b)" "b_pop b = None"
    by (simp_all add: safe_simps plain_def)
  have "jobs (commit (Edit_update i b) d) i =
          Some (apply_set (cast_fields (b_top (safe b))) j)"
    using assms(1,3) set_document_plain [OF p(1)] p
    by (simp add: updateJobDetails_def findByIdAndUpdate_def Let_def safe_def [symmetric]
        cast_fields_simps safe_simps apply_pop_simps)
  then show "map_option completedAt (jobs (commit (Edit_update i b) d) i) =
           Some (over_opt (f_completedAt (b_top b)) (completedAt j))"
    and "map_option billedAt (jobs (commit (Edit_update i b) d) i) =
           Some (over_opt (f_billedAt (b_top b)) (billedAt j))"
    by (simp_all add: apply_set_stamps cast_fields_simps safe_simps)
qed

text \<open>
  Claim C6, as stated: no operation, detail edits included, sets or overwrites
  \<^verbatim>\<open>completedAt\<close> or \<^verbatim>\<open>billedAt\<close> a second time. \<open>updateJobDetails\<close> strips four
  keys from its input, and these two are not among them: on the completed job of the
  sample store, whose \<^verbatim>\<open>completedAt\<close> is 105, a detail edit with the plain body
  \<^verbatim>\<open>{ completedAt: 1 }\<close> replaces it, through the service function and through the
  PUT route alike.
\<close>

theorem stamps_counterexample:
  "map_option completedAt (jobs (stage 6) 10) = Some (Some 105) \<and>
   map_option completedAt
     (jobs (snd (exec (updateJobDetails 10 (plain_body (no_fields\<lparr>f_completedAt := Some 1\<rparr>)))
        (stage 6))) 10) = Some (Some 1) \<and>
   map_option completedAt
     (jobs (handle (Edit 10 (plain_body (no_fields\<lparr>f_completedAt := Some 1\<rparr>))) (stage 6)) 10) =
     Some (Some 1)"
  by code_simp

text \<open>
  Claim C6, amended. In every execution, sequential or interleaved, the store changes
  by the write steps of the requests in the order they are taken (lemma
  \<open>interleaving_commits\<close>); a sequential history of requests polite to the job is a
  regular run (lemma \<open>history_regular\<close>). Take a job from its creation through any run of write steps
  that the handlers issue, in which no detail edit of the job supplies
  \<^verbatim>\<open>completedAt\<close> or \<^verbatim>\<open>billedAt\<close> or carries an update operator, every save of
  a reassignment of the job finds the job in the status the reassignment read, and the
  job's id is not inserted again. Then at most one conditional update to COMPLETED
  lands and at most one to BILLED; \<^verbatim>\<open>completedAt\<close> changes its value at most once
  and \<^verbatim>\<open>billedAt\<close> at most once; at the end \<^verbatim>\<open>completedAt\<close> is set only if the job is
  COMPLETED or BILLED and \<^verbatim>\<open>billedAt\<close> only if it is BILLED. Step by step, for every
  write step the handlers issue other than such a detail edit, fresh or not:
  \<^verbatim>\<open>completedAt\<close> changes only when the conditional update of a transition from
  IN_PROGRESS to COMPLETED lands, which sets it to the time of that transition, and
  \<^verbatim>\<open>billedAt\<close> only when that of a transition from COMPLETED to BILLED lands;
  assignment, reassignment and plain detail edits that do not supply the stamps leave
  both as they were. Every conditional update to COMPLETED (to BILLED) that finds the
  status it expects sets \<^verbatim>\<open>completedAt\<close> (\<^verbatim>\<open>billedAt\<close>) to its time. The update
  of a detail edit with a plain, valid body stores whatever value of \<^verbatim>\<open>completedAt\<close>
  or \<^verbatim>\<open>billedAt\<close> the body supplies, and keeps the old one for a key the body lacks.
\<close>

theorem stamps_set_once:
  assumes "exec (createJob data userId t0 i) d0 = (Success j0, d1)"
    and "regular i ws d1"
  shows "landings COMPLETED i ws d1 \<le> 1 \<and> landings BILLED i ws d1 \<le> 1 \<and>
    writes completedAt i ws d1 \<le> 1 \<and> writes billedAt i ws d1 \<le> 1 \<and>
    (\<forall>j. jobs (fold commit ws d1) i = Some j \<longrightarrow>
       (completedAt j \<noteq> None \<longrightarrow> status j = COMPLETED \<or> status j = BILLED) \<and>
       (billedAt j \<noteq> None \<longrightarrow> status j = BILLED)) \<and>
    (\<forall>w d j j'. issued w \<and> tame i w \<and> jobs d i = Some j \<and> jobs (commit w d) i = Some j' \<longrightarrow>
       (completedAt j' = completedAt j \<or>
        (\<exists>u n now. w = Transition_write i IN_PROGRESS COMPLETED u n now \<and>
           status j = IN_PROGRESS \<and> status j' = COMPLETED \<and> completedAt j' = Some now)) \<and>
       (billedAt j' = billedAt j \<or>
        (\<exists>u n now. w = Transition_write i COMPLETED BILLED u n now \<and>
           status j = COMPLETED \<and> status j' = BILLED \<and> billedAt j' = Some now))) \<and>
    (\<forall>d j s u n now. jobs d i = Some j \<and> status j = s \<longrightarrow>
       map_option completedAt (jobs (commit (Transition_write i s COMPLETED u n now) d) i) =
         Some (Some now) \<and>
       map_option billedAt (jobs (commit (Transition_write i s BILLED u n now) d) i) =
         Some (Some now)) \<and>
    (\<forall>d j b. jobs d i = Some j \<and> plain b \<and> update_valid (cast_fields (b_top (safe b))) \<longrightarrow>
       map_option completedAt (jobs (commit (Edit_update i b) d) i) =
         Some (over_opt (f_completedAt (b_top b)) (completedAt j)) \<and>
       map_option billedAt (jobs (commit (Edit_update i b) d) i) =
         Some (over_opt (f_billedAt (b_top b)) (billedAt j)))"
proof -
  from createJob_stamps [OF assms(1)]
  have j0: "jobs d1 i = Some j0" "status j0 = TENTATIVE" "completedAt j0 = None"
    "billedAt j0 = None" by auto
  have l1: "landings COMPLETED i ws d1 \<le> 1"
    using landings_COMPLETED_bound [OF assms(2)] j0 by simp
  have l2: "landings BILLED i ws d1 \<le> 1"
    using landings_BILLED_bound [OF assms(2)] j0 by simp
  have w1: "writes completedAt i ws d1 \<le> 1"
    using writes_completedAt_bound [OF assms(2)] j0 by simp
  have w2: "writes billedAt i ws d1 \<le> 1"
    using writes_billedAt_bound [OF assms(2)] j0 by simp
  have "stamps_inv d1 i"
    using j0 by (simp add: stamps_inv_def stamped_ok_def)
  from regular_stamps_inv [OF assms(2) this]
  have inv: "\<forall>j. jobs (fold commit ws d1) i = Some j \<longrightarrow>
       (completedAt j \<noteq> None \<longrightarrow> status j = COMPLETED \<or> status j = BILLED) \<and>
       (billedAt j \<noteq> None \<longrightarrow> status j = BILLED)"
    by (auto simp: stamps_inv_def stamped_ok_def)
  have steps: "\<forall>w d j j'. issued w \<and> tame i w \<and> jobs d i = Some j \<and>
       jobs (commit w d) i = Some j' \<longrightarrow>
       (completedAt j' = completedAt j \<or>
        (\<exists>u n now. w = Transition_write i IN_PROGRESS COMPLETED u n now \<and>
           status j = IN_PROGRESS \<and> status j' = COMPLETED \<and> completedAt j' = Some now)) \<and>
       (billedAt j' = billedAt j \<or>
        (\<exists>u n now. w = Transition_write i COMPLETED BILLED u n now \<and>
           status j = COMPLETED \<and> status j' = BILLED \<and> billedAt j' = Some now))"
    using commit_completedAt commit_billedAt by blast
  have lands: "\<forall>d j s u n now. jobs d i = Some j \<and> status j = s \<longrightarrow>
       map_option completedAt (jobs (commit (Transition_write i s COMPLETED u n now) d) i) =
         Some (Some now) \<and>
       map_option billedAt (jobs (commit (Transition_write i s BILLED u n now) d) i) =
         Some (Some now)"
    using completion_lands(1) billing_lands(1) by blast
  have edits: "\<forall>d j b. jobs d i = Some j \<and> plain b \<and>
       update_valid (cast_fields (b_top (safe b))) \<longrightarrow>
       map_option completedAt (jobs (commit (Edit_update i b) d) i) =
         Some (over_opt (f_completedAt (b_top b)) (completedAt j)) \<and>
       map_option billedAt (jobs (commit (Edit_update i b) d) i) =
         Some (over_opt (f_billedAt (b_top b)) (billedAt j))"
    using edit_stamps by blast
  show ?thesis
    by (intro conjI l1 l2 w1 w2 inv steps lands edits)
qed

theorem stamps_set_once_witness:
  "fst (exec (createJob new_job 1 100 10) seeded) = Success (the (jobs (stage 1) 10)) \<and>
   regular 10 sample_steps (snd (exec (createJob new_job 1 100 10) seeded)) \<and>
   landings COMPLETED 10 sample_steps (snd (exec (createJob new_job 1 100 10) seeded)) \<le> 1 \<and>
   writes completedAt 10 sample_steps (snd (exec (createJob new_job 1 100 10) seeded)) \<le> 1 \<and>
   writes billedAt 10 sample_steps (snd (exec (createJob new_job 1 100 10) seeded)) \<le> 1 \<and>
   landings COMPLETED 10 sample_steps (snd (exec (createJob new_job 1 100 10) seeded)) = 1 \<and>
   writes completedAt 10 sample_steps (snd (exec (createJob new_job 1 100 10) seeded)) = 1 \<and>
   map_option (\<lambda>j. (status j, assignedTechnician j, completedAt j, billedAt j))
     (jobs (fold commit sample_steps (snd (exec (createJob new_job 1 100 10) seeded))) 10) =
     Some (BILLED, Some 4, Some 107, Some 109)"
proof -
  let ?c = "createJob new_job 1 100 10"
  have f: "fst (exec ?c seeded) = Success (the (jobs (stage 1) 10))" by code_simp
  have h1: "exec ?c seeded = (Success (the (jobs (stage 1) 10)), snd (exec ?c seeded))"
    using f by (metis prod.collapse)
  have h2: "regular 10 sample_steps (snd (exec ?c seeded))" by code_simp
  note t = stamps_set_once [OF h1 h2]
  have c0: "landings COMPLETED 10 sample_steps (snd (exec ?c seeded)) \<le> 1"
    using t [THEN conjunct1] .
  have c1: "writes completedAt 10 sample_steps (snd (exec ?c seeded)) \<le> 1"
    using t [THEN conjunct2, THEN conjunct2, THEN conjunct1] .
  have c2: "writes billedAt 10 sample_steps (snd (exec ?c seeded)) \<le> 1"
    using t [THEN conjunct2, THEN conjunct2, THEN conjunct2, THEN conjunct1] .
  have e0: "landings COMPLETED 10 sample_steps (snd (exec ?c seeded)) = 1" by code_simp
  have e1: "writes completedAt 10 sample_steps (snd (exec ?c seeded)) = 1" by code_simp
  have e2: "map_option (\<lambda>j. (status j, assignedTechnician j, completedAt j, billedAt j))
     (jobs (fold commit sample_steps (snd (exec ?c seeded))) 10) =
     Some (BILLED, Some 4, Some 107, Some 109)" by code_simp
  show ?thesis
    by (intro conjI f h2 c0 c1 c2 e0 e1 e2)
qed

text \<open>
  What the two conditions on a run keep out. A detail edit with an operator can move the
  status: on the completed job of the sample store the body
  \<^verbatim>\<open>{ $set: { status: "IN_PROGRESS" } }\<close> reopens the job, and the technician's next
  completion writes \<^verbatim>\<open>completedAt\<close> a second time. The save of a reassignment that
  read IN_PROGRESS and lands after the completion does the same.
\<close>

lemma operator_edit_reopens:
  "map_option completedAt (jobs (stage 6) 10) = Some (Some 105) \<and>
   map_option (\<lambda>j. (status j, completedAt j))
     (jobs (history
        [Edit 10 \<lparr>b_top = no_fields, b_set = Some (no_fields\<lparr>f_status := Some IN_PROGRESS\<rparr>),
                  b_pop = None\<rparr>,
         Transition 10 COMPLETED tech1 None 300] (stage 6)) 10) =
     Some (COMPLETED, Some 300)"
  by code_simp

lemma stale_save_reopens:
  "map_option (\<lambda>j. (status j, completedAt j))
     (jobs (fold commit
        [Transition_write 10 IN_PROGRESS COMPLETED tech1 None 105,
         Reassign_save 10 (the (jobs (stage 5) 10)) 3
           (reassign_entry IN_PROGRESS 1 None (lit ''John Tech'') (lit ''John Tech'') 200),
         Transition_write 10 ASSIGNED DISPATCHED manager (Some (lit ''again'')) 201,
         Transition_write 10 DISPATCHED IN_PROGRESS tech1 None 202,
         Transition_write 10 IN_PROGRESS COMPLETED tech1 None 203] (stage 5)) 10) =
     Some (COMPLETED, Some 203)"
  by code_simp

section \<open>Racing transitions\<close>

lemma run_schedule_Nil [simp]: "run_schedule [] s = s"
  by (simp add: run_schedule_def)

lemma run_schedule_Cons [simp]: "run_schedule (i # is) s = run_schedule is (step_thread i s)"
  by (simp add: run_schedule_def)

lemma run_schedule_append: "run_schedule (xs @ ys) s = run_schedule ys (run_schedule xs s)"
  by (simp add: run_schedule_def)

text \<open>Steps that leave the store alone: each scheduled request moves on, once.\<close>

lemma run_schedule_quiet:
  assumes "distinct sched" and "set sched \<subseteq> {..<length ps}" and "length qs = length ps"
    and "\<And>i. i \<in> set sched \<Longrightarrow> step (ps ! i) d = (qs ! i, d)"
  shows "run_schedule sched (ps, d) =
           (map (\<lambda>i. if i \<in> set sched then qs ! i else ps ! i) [0..<length ps], d)"
  using assms
proof (induction sched arbitrary: ps)
  case Nil
  then show ?case by (simp add: map_nth)
next
  case (Cons a sched)
  let ?ps = "ps[a := qs ! a]"
  from Cons.prems have a: "a < length ps" "a \<notin> set sched" by auto
  from Cons.prems(4) [of a] a have st: "step_thread a (ps, d) = (?ps, d)" by simp
  have "run_schedule sched (?ps, d) =
          (map (\<lambda>i. if i \<in> set sched then qs ! i else ?ps ! i) [0..<length ?ps], d)"
  proof (rule Cons.IH)
    show "distinct sched" using Cons.prems(1) by simp
    show "set sched \<subseteq> {..<length ?ps}" using Cons.prems(2) by simp
    show "length qs = length ?ps" using Cons.prems(3) by simp
    fix i assume i: "i \<in> set sched"
    with a have "i \<noteq> a" by auto
    with Cons.prems(4) [of i] i show "step (?ps ! i) d = (qs ! i, d)" by simp
  qed
  moreover have "map (\<lambda>i. if i \<in> set sched then qs ! i else ?ps ! i) [0..<length ?ps] =
      map (\<lambda>i. if i \<in> set (a # sched) then qs ! i else ps ! i) [0..<length ps]"
    using a by (auto simp: nth_list_update)
  ultimately show ?case using st by simp
qed

lemma step_transitionStatus_write_match:
  assumes "jobs d jobId = Some j" and "status j = s"
  shows "step (transitionStatus_write jobId s T u n now) d =
           (Return (Success (apply_update (transition_set T now) (transition_entry s T u n now) j)),
            d\<lparr>jobs := (jobs d)(jobId \<mapsto>
                 apply_update (transition_set T now) (transition_entry s T u n now) j)\<rparr>)"
  using assms by (simp add: transitionStatus_write_def findOneAndUpdate_def)

lemma step_transitionStatus_write_conflict:
  assumes "map_option status (jobs d jobId) \<noteq> Some s"
  shows "step (transitionStatus_write jobId s T u n now) d =
           (Return (Failure conflict_message 409), d)"
  using assms by (auto simp: transitionStatus_write_def findOneAndUpdate_def split: option.splits)

lemma admissible_moves: "admissible j T u n \<Longrightarrow> status j \<noteq> T"
  using validateTransition_same by (auto simp: admissible_def)

text \<open>What a landing transition makes of the job, field by field.\<close>

lemma transition_lands_as:
  "apply_update (transition_set T t) (transition_entry s T u n t) j =
     j\<lparr>status := T,
       completedAt := (if T = COMPLETED then Some t else completedAt j),
       billedAt := (if T = BILLED then Some t else billedAt j),
       statusHistory := statusHistory j @
         [\<lparr>fromStatus = Some s, toStatus = T, changedBy = user_id u, changedAt = t,
           entry_notes =
             js_trim (if n = None \<or> n = Some []
                      then lit (''Status changed from '' @ status_name s @ '' to '' @
                                status_name T)
                      else the n)\<rparr>]\<rparr>"
  by (cases j)
     (simp add: apply_update_def apply_set_def transition_set_def transition_entry_def
        cast_entry_def or_else_def falsy_def no_fields_def Let_def)

text \<open>
  A dispatch whose note is empty once trimmed is refused, whatever white space the note
  is made of: a note of a no-break space, an em space and a byte order mark is blank.
\<close>

lemma dispatch_needs_a_note:
  assumes "jobs d jobId = Some j"
    and "validateTransition (status j) DISPATCHED (user_role u) = None"
    and "falsy n \<or> js_trim (the n) = []"
  shows "exec (transitionStatus jobId DISPATCHED u n now) d =
           (Failure ''Notes are required when dispatching a job to a technician'' 400, d)"
  using assms by (auto simp: transitionStatus_def findById_def)

lemma blank_dispatch_refused:
  "exec (transitionStatus 10 DISPATCHED manager (Some [0x00A0, 0x2003, 0xFEFF]) 200) (stage 3) =
     (Failure ''Notes are required when dispatching a job to a technician'' 400, stage 3)"
proof -
  have "jobs (stage 3) 10 = Some (the (jobs (stage 3) 10))" by code_simp
  moreover have "validateTransition (status (the (jobs (stage 3) 10))) DISPATCHED
      (user_role manager) = None" by code_simp
  moreover have "js_trim [0x00A0, 0x2003, 0xFEFF] = []" by code_simp
  ultimately show ?thesis
    by (intro dispatch_needs_a_note) simp_all
qed

text \<open>
  Claim C1. Let a job be at status \<open>S\<close>, and let \<open>N\<close> calls of
  \<open>transitionStatus\<close> for the same target \<open>T\<close> be in flight, each of which passes
  the checks on the job as it stands. Let every call read the job (in any order \<open>rs\<close>)
  before any of them writes, and let the conditional updates then run in any order
  \<open>ws\<close>. Then the call whose update runs first returns \<open>Success\<close> with the updated
  job, and every other call returns the conflict failure with status 409. The updated
  job, which is also the job in the store at the end, is the old job with status \<open>T\<close>,
  with \<^verbatim>\<open>completedAt\<close> or \<^verbatim>\<open>billedAt\<close> set to the winner's time when \<open>T\<close> is
  COMPLETED or BILLED, and with exactly one record appended to its history: from \<open>S\<close>
  to \<open>T\<close>, changed by the winner at the winner's time, with the winner's note, trimmed,
  or the default note when the winner sent none. The conditional update is atomic on
  the job's document, which is the guarantee of the storage layer the operation relies
  on.
\<close>

theorem one_winner:
  assumes job: "jobs d jobId = Some j"
    and callers: "callers \<noteq> []"
    and valid: "list_all (\<lambda>(u, n, t). admissible j T u n) callers"
    and reads: "distinct rs" "set rs = {..<length callers}"
    and writes: "distinct ws" "set ws = {..<length callers}"
    and winner: "callers ! hd ws = (u, n, t)"
    and landed:
      "j' = j\<lparr>status := T,
              completedAt := (if T = COMPLETED then Some t else completedAt j),
              billedAt := (if T = BILLED then Some t else billedAt j),
              statusHistory := statusHistory j @
                [\<lparr>fromStatus = Some (status j), toStatus = T, changedBy = user_id u,
                  changedAt = t,
                  entry_notes =
                    js_trim (if n = None \<or> n = Some []
                             then lit (''Status changed from '' @ status_name (status j) @
                                       '' to '' @ status_name T)
                             else the n)\<rparr>]\<rparr>"
  shows "run_schedule (rs @ ws)
           (map (\<lambda>(u, n, t). transitionStatus jobId T u n t) callers, d) =
         (map (\<lambda>i. Return
                 (if i = hd ws then Success j'
                  else Failure ''Conflict: job status was changed by another request. Please refresh and retry.'' 409))
            [0..<length callers],
          d\<lparr>jobs := (jobs d)(jobId \<mapsto> j')\<rparr>)"
proof -
  let ?N = "length callers"
  let ?ps0 = "map (\<lambda>(u, n, t). transitionStatus jobId T u n t) callers"
  let ?ps1 = "map (\<lambda>(u, n, t). transitionStatus_write jobId (status j) T u n t) callers"
  let ?d' = "d\<lparr>jobs := (jobs d)(jobId \<mapsto> j')\<rparr>"
  let ?conflict = "Return (Failure conflict_message 409) :: job outcome prog"
  have landed': "j' = apply_update (transition_set T t) (transition_entry (status j) T u n t) j"
    unfolding landed transition_lands_as ..
  have adm: "\<And>i. i < ?N \<Longrightarrow> (case callers ! i of (u, n, t) \<Rightarrow> admissible j T u n)"
    using valid by (simp add: list_all_length)
  \<comment> \<open>every request reads the job and passes its checks\<close>
  have "run_schedule rs (?ps0, d) =
          (map (\<lambda>i. if i \<in> set rs then ?ps1 ! i else ?ps0 ! i) [0..<length ?ps0], d)"
  proof (rule run_schedule_quiet)
    show "distinct rs" by fact
    show "set rs \<subseteq> {..<length ?ps0}" using reads by simp
    show "length ?ps1 = length ?ps0" by simp
    fix i assume "i \<in> set rs"
    then have i: "i < ?N" using reads by auto
    obtain u' n' t' where c: "callers ! i = (u', n', t')" by (cases "callers ! i") auto
    with adm [OF i] have "admissible j T u' n'" by simp
    from step_transitionStatus [OF job this, where now = t'] i c
    show "step (?ps0 ! i) d = (?ps1 ! i, d)" by simp
  qed
  also have "map (\<lambda>i. if i \<in> set rs then ?ps1 ! i else ?ps0 ! i) [0..<length ?ps0] = ?ps1"
    using reads by (intro nth_equalityI) simp_all
  finally have phase1: "run_schedule rs (?ps0, d) = (?ps1, d)" .
  \<comment> \<open>the first write lands\<close>
  from callers writes obtain w ws' where ws: "ws = w # ws'"
    by (cases ws) auto
  with writes have w: "w < ?N" "w \<notin> set ws'" "distinct ws'" "set ws' \<subseteq> {..<?N}"
    by auto
  from winner ws have cw: "callers ! w = (u, n, t)" by simp
  from step_transitionStatus_write_match [OF job refl, where T = T and u = u and n = n and now = t] landed'
  have "step (transitionStatus_write jobId (status j) T u n t) d = (Return (Success j'), ?d')"
    by simp
  with w cw have first: "step_thread w (?ps1, d) = (?ps1[w := Return (Success j')], ?d')"
    by simp
  \<comment> \<open>every later write finds the status changed\<close>
  from adm [OF w(1)] cw have "admissible j T u n" by simp
  then have moved: "status j \<noteq> T" by (rule admissible_moves)
  have st: "status j' = T"
    using landed by simp
  let ?ps2 = "?ps1[w := Return (Success j')]"
  have "run_schedule ws' (?ps2, ?d') =
          (map (\<lambda>i. if i \<in> set ws' then replicate ?N ?conflict ! i else ?ps2 ! i)
             [0..<length ?ps2], ?d')"
  proof (rule run_schedule_quiet)
    show "distinct ws'" by fact
    show "set ws' \<subseteq> {..<length ?ps2}" using w by simp
    show "length (replicate ?N ?conflict) = length ?ps2" by simp
    fix i assume i: "i \<in> set ws'"
    with w have il: "i < ?N" "i \<noteq> w" by auto
    obtain u' n' t' where c: "callers ! i = (u', n', t')" by (cases "callers ! i") auto
    have "map_option status (jobs ?d' jobId) \<noteq> Some (status j)"
      using st moved by simp
    from step_transitionStatus_write_conflict [OF this, where T = T and u = u' and n = n' and now = t'] il c
    show "step (?ps2 ! i) ?d' = (replicate ?N ?conflict ! i, ?d')" by simp
  qed
  also have "map (\<lambda>i. if i \<in> set ws' then replicate ?N ?conflict ! i else ?ps2 ! i)
               [0..<length ?ps2] =
             map (\<lambda>i. Return (if i = hd ws then Success j' else Failure conflict_message 409))
               [0..<?N]"
  proof (intro nth_equalityI)
    show "length (map (\<lambda>i. if i \<in> set ws' then replicate ?N ?conflict ! i else ?ps2 ! i)
               [0..<length ?ps2]) =
          length (map (\<lambda>i. Return (if i = hd ws then Success j' else Failure conflict_message 409))
               [0..<?N])" by simp
  next
    fix i assume "i < length (map (\<lambda>i. if i \<in> set ws' then replicate ?N ?conflict ! i
        else ?ps2 ! i) [0..<length ?ps2])"
    then have i: "i < ?N" by simp
    have "i \<in> set ws' \<longleftrightarrow> i \<noteq> w"
      using writes(2) ws w i by auto
    with i ws w show "map (\<lambda>i. if i \<in> set ws' then replicate ?N ?conflict ! i else ?ps2 ! i)
               [0..<length ?ps2] ! i =
             map (\<lambda>i. Return (if i = hd ws then Success j' else Failure conflict_message 409))
               [0..<?N] ! i" by simp
  qed
  finally have phase2: "run_schedule ws' (?ps2, ?d') =
      (map (\<lambda>i. Return (if i = hd ws then Success j' else Failure conflict_message 409))
         [0..<?N], ?d')" .
  have "run_schedule (rs @ ws) (?ps0, d) =
      (map (\<lambda>i. Return (if i = hd ws then Success j' else Failure conflict_message 409))
         [0..<?N], ?d')"
    unfolding run_schedule_append phase1 using ws first phase2 by simp
  then show ?thesis by (simp add: conflict_message_def)
qed

theorem one_winner_witness:
  "jobs (stage 3) 10 = Some (the (jobs (stage 3) 10)) \<and> racers \<noteq> [] \<and>
   list_all (\<lambda>(u, n, t). admissible (the (jobs (stage 3) 10)) DISPATCHED u n) racers \<and>
   distinct [0, 1 :: nat] \<and> set [0, 1] = {..<length racers} \<and>
   distinct [1, 0 :: nat] \<and> set [1, 0] = {..<length racers} \<and>
   racers ! hd [1, 0] = (manager, Some (lit ''  use the side gate ''), 201) \<and>
   status (the (jobs (stage 3) 10)) = ASSIGNED \<and>
   run_schedule ([0, 1] @ [1, 0])
     (map (\<lambda>(u, n, t). transitionStatus 10 DISPATCHED u n t) racers, stage 3) =
   (map (\<lambda>i. Return
           (if i = hd [1, 0]
            then Success ((the (jobs (stage 3) 10))
                   \<lparr>status := DISPATCHED,
                    statusHistory := statusHistory (the (jobs (stage 3) 10)) @
                      [\<lparr>fromStatus = Some ASSIGNED, toStatus = DISPATCHED, changedBy = 2,
                        changedAt = 201, entry_notes = lit ''use the side gate''\<rparr>]\<rparr>)
            else Failure ''Conflict: job status was changed by another request. Please refresh and retry.'' 409))
      [0..<length racers],
    (stage 3)\<lparr>jobs := (jobs (stage 3))(10 \<mapsto>
       (the (jobs (stage 3) 10))
         \<lparr>status := DISPATCHED,
          statusHistory := statusHistory (the (jobs (stage 3) 10)) @
            [\<lparr>fromStatus = Some ASSIGNED, toStatus = DISPATCHED, changedBy = 2,
              changedAt = 201, entry_notes = lit ''use the side gate''\<rparr>]\<rparr>)\<rparr>) \<and>
   map_option (\<lambda>j. map toStatus (statusHistory j)) (jobs (stage 3) 10) =
     Some [TENTATIVE, CONFIRMED, ASSIGNED]"
proof -
  let ?j = "the (jobs (stage 3) 10)"
  have h1: "jobs (stage 3) 10 = Some ?j" by code_simp
  have h2: "racers \<noteq> []" by (simp add: racers_def)
  have h3: "list_all (\<lambda>(u, n, t). admissible ?j DISPATCHED u n) racers"
    by code_simp
  have h4: "distinct [0, 1 :: nat]" by simp
  have h5: "set [0, 1] = {..<length racers}" by (auto simp: racers_def)
  have h6: "distinct [1, 0 :: nat]" by simp
  have h7: "set [1, 0] = {..<length racers}" by (auto simp: racers_def)
  have h8: "racers ! hd [1, 0] = (manager, Some (lit ''  use the side gate ''), 201)"
    by (simp add: racers_def)
  have s3: "status ?j = ASSIGNED" by code_simp
  have tr: "js_trim (lit ''  use the side gate '') = lit ''use the side gate''" by code_simp
  have ne: "lit ''  use the side gate '' \<noteq> []" by (simp add: lit_def)
  have id: "user_id manager = 2" by (simp add: manager_def)
  have h9: "?j\<lparr>status := DISPATCHED,
              statusHistory := statusHistory ?j @
                [\<lparr>fromStatus = Some ASSIGNED, toStatus = DISPATCHED, changedBy = 2,
                  changedAt = 201, entry_notes = lit ''use the side gate''\<rparr>]\<rparr> =
            ?j\<lparr>status := DISPATCHED,
              completedAt := (if DISPATCHED = COMPLETED then Some 201 else completedAt ?j),
              billedAt := (if DISPATCHED = BILLED then Some 201 else billedAt ?j),
              statusHistory := statusHistory ?j @
                [\<lparr>fromStatus = Some (status ?j), toStatus = DISPATCHED,
                  changedBy = user_id manager, changedAt = 201,
                  entry_notes =
                    js_trim (if Some (lit ''  use the side gate '') = None \<or>
                                Some (lit ''  use the side gate '') = Some []
                             then lit (''Status changed from '' @ status_name (status ?j) @
                                       '' to '' @ status_name DISPATCHED)
                             else the (Some (lit ''  use the side gate '')))\<rparr>]\<rparr>"
    by (simp add: s3 tr ne id)
  have hist: "map_option (\<lambda>j. map toStatus (statusHistory j)) (jobs (stage 3) 10) =
     Some [TENTATIVE, CONFIRMED, ASSIGNED]" by code_simp
  note c = one_winner [OF h1 h2 h3 h4 h5 h6 h7 h8 h9]
  show ?thesis
    by (intro conjI h1 h2 h3 h4 h5 h6 h7 h8 s3 c hist)
qed

section \<open>Reassignment\<close>

text \<open>
  What the reassign route does when run alone on an existing job: outside ASSIGNED,
  DISPATCHED and IN_PROGRESS it refuses with status 400 and a message naming the three
  statuses; otherwise it stores the new technician, resets the status to ASSIGNED and
  appends a record from the status the job was in to ASSIGNED. The new technician is
  looked up for the name only: \<open>name_or\<close> falls back to "new technician" when no such
  user exists, and the write goes ahead.
\<close>

lemma reassign_route_effect:
  assumes "jobs d jobId = Some j"
  shows "exec (reassign_route jobId tid u n now) d =
    (if status j \<notin> {ASSIGNED, DISPATCHED, IN_PROGRESS}
     then (Failure (''Cannot reassign a job in '' @ status_name (status j) @
             '' status. Job must be in ASSIGNED, DISPATCHED, or IN_PROGRESS.'') 400, d)
     else let e = reassign_entry (status j) (user_id u) n
                    (name_or (case assignedTechnician j of None \<Rightarrow> None | Some t \<Rightarrow> users d t)
                       (lit ''previous technician''))
                    (name_or (users d tid) (lit ''new technician'')) now;
              j' = j\<lparr>status := ASSIGNED, assignedTechnician := Some tid,
                     statusHistory := statusHistory j @ [cast_entry e]\<rparr>
          in (Success j', d\<lparr>jobs := (jobs d)(jobId \<mapsto> j')\<rparr>))"
  using assms
  by (cases j)
     (auto simp: reassign_route_def reassign_lookup_def reassign_save_def save_def
        findById_def User_findById_def Let_def reassignableStatuses_def apply_update_def
        apply_set_def reassign_set_def no_fields_def over_def over_opt_def
        cong: option.case_cong)

text \<open>
  Claim C7 asks that the new technician be validated to exist, as \<open>assignTechnician\<close>
  does for a first assignment. The reassign route does not: on the sample job in
  progress, reassigning to the id 999, which no user has, succeeds and stores 999 as the
  assigned technician.
\<close>

theorem reassign_unknown_technician:
  "users (stage 5) 999 = None \<and>
   succeeded (fst (exec (reassign_route 10 999 admin None 300) (stage 5))) \<and>
   map_option assignedTechnician
     (jobs (snd (exec (reassign_route 10 999 admin None 300) (stage 5))) 10) = Some (Some 999) \<and>
   map_option status
     (jobs (snd (exec (reassign_route 10 999 admin None 300) (stage 5))) 10) = Some ASSIGNED"
  by code_simp

text \<open>
  Claim C5 asks that the write of a reassignment commit only if the job still has the
  status read at the start. The route saves by id alone. On the sample job in progress:
  the reassignment reads the job (IN_PROGRESS); the technician's transition to COMPLETED
  then runs to its end and succeeds; the reassignment then looks up the new technician
  and saves. The save succeeds, the stored status goes from COMPLETED back to ASSIGNED,
  and the appended record claims to start from IN_PROGRESS although the record before it
  ends in COMPLETED; \<^verbatim>\<open>completedAt\<close> stays set on a job that is ASSIGNED again.
\<close>

theorem reassign_overwrites_completion:
  "map_option status (jobs (stage 5) 10) = Some IN_PROGRESS \<and>
   (let s1 = run_schedule [0]
               ([reassign_route 10 4 admin None 300,
                 transitionStatus 10 COMPLETED tech1 None 301], stage 5);
        s2 = run_schedule [1, 1] s1;
        s3 = run_schedule [0, 0] s2
    in map_option status (jobs (snd s1) 10) = Some IN_PROGRESS \<and>
       map_option status (jobs (snd s2) 10) = Some COMPLETED \<and>
       map (map_option succeeded \<circ> returned) (fst s3) = [Some True, Some True] \<and>
       map_option status (jobs (snd s3) 10) = Some ASSIGNED \<and>
       map_option (\<lambda>j. map toStatus (statusHistory j)) (jobs (snd s3) 10) =
         Some [TENTATIVE, CONFIRMED, ASSIGNED, DISPATCHED, IN_PROGRESS, COMPLETED, ASSIGNED] \<and>
       map_option (\<lambda>j. fromStatus (last (statusHistory j))) (jobs (snd s3) 10) =
         Some (Some IN_PROGRESS) \<and>
       map_option completedAt (jobs (snd s3) 10) = Some (Some 301))"
  by code_simp

end
